theory Spec2Isabelle
  imports Complex_Main "HOL-Library.Sublist"
begin

section \<open>JavaScript strings, arrays and numbers as the relay uses them\<close>

text \<open>
  A JavaScript string is modelled as a \<^typ>\<open>string\<close>, a list of characters. The relay
  only compares strings for equality, tests prefixes and suffixes, cuts them at an
  index and splits them at the ASCII colon; all of these act on the sequence of
  code units, whatever the encoding.

  \<open>t[i]\<close> on an array is \<open>undefined\<close> outside its bounds; \<open>nth_opt\<close> returns
  \<open>None\<close> there.
\<close>

fun nth_opt :: "'a list \<Rightarrow> nat \<Rightarrow> 'a option" where
  "nth_opt [] n = None"
| "nth_opt (x # xs) 0 = Some x"
| "nth_opt (x # xs) (Suc n) = nth_opt xs n"

text \<open>\<open>s.startsWith(p)\<close>, \<open>s.endsWith(p)\<close> and \<open>s.slice(0, -1)\<close>.\<close>

definition startsWith :: "string \<Rightarrow> string \<Rightarrow> bool" where
  "startsWith s p = (take (length p) s = p)"

definition endsWith :: "string \<Rightarrow> string \<Rightarrow> bool" where
  "endsWith s p = (length p \<le> length s \<and> drop (length s - length p) s = p)"

definition slice_0_minus1 :: "string \<Rightarrow> string" where
  "slice_0_minus1 s = take (length s - 1) s"

text \<open>\<open>s.split(c)\<close> for a one-character separator: the fields between the separators.\<close>

fun split_str :: "char \<Rightarrow> string \<Rightarrow> string list" where
  "split_str c [] = [[]]"
| "split_str c (x # xs) =
     (if x = c then [] # split_str c xs
      else (case split_str c xs of
              [] \<Rightarrow> [[x]]
            | f # fs \<Rightarrow> (x # f) # fs))"

text \<open>
  An event kind is a JavaScript number; an event carries it as an integer here. What the
  template literal \<open>`${kind}`\<close> prints is not fixed here: the conversion of a number to a
  string is a parameter of every function that uses it, so what is proved holds for
  JavaScript's conversion, exponent forms included. \<open>decimal\<close> is the decimal numeral of an
  integer, which is what JavaScript prints for an integer of magnitude below \<open>2^53\<close>; the
  scenario below prints kinds with it.
\<close>

definition digit_char :: "nat \<Rightarrow> char" where
  "digit_char d = ''0123456789'' ! d"

fun digits :: "nat \<Rightarrow> string" where
  "digits n = (if n < 10 then [digit_char n] else digits (n div 10) @ [digit_char (n mod 10)])"

declare digits.simps [simp del]

definition decimal :: "int \<Rightarrow> string" where
  "decimal k = (if k < 0 then CHR ''-'' # digits (nat (- k)) else digits (nat k))"

section \<open>Grant matching\<close>

text \<open>
  \<^verbatim>\<open>
  function matchesScope(scope, kind) {
    if (scope === '*') return true
    if (scope === `kind:${kind}`) return true
    if (scope === `${kind}`) return true
    return false
  }
  \<close>
  \<open>toString\<close> is the conversion \<open>`${kind}`\<close>, and \<open>'n\<close> the type of the numbers it is
  given: the function does nothing else with the kind.
\<close>

definition matchesScope :: "('n \<Rightarrow> string) \<Rightarrow> string \<Rightarrow> 'n \<Rightarrow> bool" where
  "matchesScope toString scope kind =
     (if scope = ''*'' then True
      else if scope = ''kind:'' @ toString kind then True
      else if scope = toString kind then True
      else False)"

text \<open>
  \<^verbatim>\<open>
  function matchesCommons(grantCommons, targetCommons) {
    if (grantCommons === '*') return true
    if (grantCommons === targetCommons) return true
    if (grantCommons.endsWith(':*')) {
      const prefix = grantCommons.slice(0, -1)
      return targetCommons.startsWith(prefix)
    }
    return false
  }
  \<close>
\<close>

definition matchesCommons :: "string \<Rightarrow> string \<Rightarrow> bool" where
  "matchesCommons grantCommons targetCommons =
     (if grantCommons = ''*'' then True
      else if grantCommons = targetCommons then True
      else if endsWith grantCommons '':*'' then
        (let prefix = slice_0_minus1 grantCommons in startsWith targetCommons prefix)
      else False)"

section \<open>Events, grants and connections\<close>

text \<open>
  An event has the shape that \<open>verifyEvent\<close> of nostr-tools requires: its \<open>pubkey\<close>, \<open>id\<close>,
  \<open>content\<close> and \<open>sig\<close> are strings, its \<open>kind\<close> and \<open>created_at\<close> numbers, its \<open>tags\<close> an
  array of arrays of strings. A capability token is an object of the same shape. The
  relay calls \<open>verifyEvent\<close> on every event and token before it reads their tags, and that
  call changes nothing, so objects of another shape never reach the code modelled here.
\<close>

record event =
  id' :: string
  pubkey :: string
  created_at :: int
  kind :: int
  tags :: "string list list"
  content :: string
  sig :: string

text \<open>
  A grant as \<open>parseGrants\<close> builds it. Its \<open>action\<close> is \<open>tag[1]\<close>, which is \<open>undefined\<close>
  (\<open>None\<close>) for a tag of one element.
\<close>

record grant =
  action :: "string option"
  scope :: string
  commons :: string

text \<open>
  The per-connection record \<open>{ pubkey, grants, challenge }\<close>; \<open>pubkey\<close> is \<open>null\<close>
  (\<open>None\<close>) until an AUTH succeeds.
\<close>

record conn =
  pubkey :: "string option"
  grants :: "grant list"
  challenge :: string

text \<open>
  Truthiness of a value that is a string, \<open>null\<close> or \<open>undefined\<close>: only a non-empty
  string is truthy. \<open>or_default x d\<close> is \<open>x || d\<close>.
\<close>

fun truthy :: "string option \<Rightarrow> bool" where
  "truthy None = False"
| "truthy (Some s) = (s \<noteq> [])"

definition or_default :: "string option \<Rightarrow> string \<Rightarrow> string" where
  "or_default x d = (case x of None \<Rightarrow> d | Some s \<Rightarrow> if s = [] then d else s)"

text \<open>
  \<open>tags.find(t => t[0] === name)?.[1]\<close>: the second element of the first tag whose
  first element is \<open>name\<close>, \<open>undefined\<close> when there is no such tag or it has one element.
\<close>

definition findTag :: "string \<Rightarrow> string list list \<Rightarrow> string list option" where
  "findTag name ts = find (\<lambda>t. nth_opt t 0 = Some name) ts"

definition tagValue :: "string \<Rightarrow> string list list \<Rightarrow> string option" where
  "tagValue name ts = (case findTag name ts of None \<Rightarrow> None | Some t \<Rightarrow> nth_opt t 1)"

section \<open>parseInt\<close>

text \<open>
  \<open>parseInt(s)\<close> with no radix: leading white space is skipped, then an optional sign,
  then an optional \<open>0x\<close> or \<open>0X\<close> (which makes the radix 16), then the longest run of
  digits of the radix. No digit gives \<open>NaN\<close>, here \<open>None\<close>. The white space is the ASCII
  part of JavaScript's; the value is exact, as JavaScript's is below \<open>2^53\<close>.
\<close>

definition isWhiteSpace :: "char \<Rightarrow> bool" where
  "isWhiteSpace c = (of_char c \<in> {9, 10, 11, 12, 13, 32 :: int})"

definition digitValue :: "char \<Rightarrow> int option" where
  "digitValue c =
     (let n = (of_char c :: int) in
      if 48 \<le> n \<and> n \<le> 57 then Some (n - 48)
      else if 97 \<le> n \<and> n \<le> 122 then Some (n - 87)
      else if 65 \<le> n \<and> n \<le> 90 then Some (n - 55)
      else None)"

definition isRadixDigit :: "int \<Rightarrow> char \<Rightarrow> bool" where
  "isRadixDigit R c = (case digitValue c of None \<Rightarrow> False | Some d \<Rightarrow> d < R)"

definition radixValue :: "int \<Rightarrow> string \<Rightarrow> int" where
  "radixValue R ds = fold (\<lambda>c acc. acc * R + (case digitValue c of None \<Rightarrow> 0 | Some d \<Rightarrow> d)) ds 0"

definition parseInt :: "string \<Rightarrow> int option" where
  "parseInt s =
     (let s1 = dropWhile isWhiteSpace s;
          negative = (case s1 of [] \<Rightarrow> False | c # _ \<Rightarrow> c = CHR ''-'');
          s2 = (case s1 of [] \<Rightarrow> [] | c # r \<Rightarrow> if c = CHR ''-'' \<or> c = CHR ''+'' then r else s1);
          hex = (startsWith s2 ''0x'' \<or> startsWith s2 ''0X'');
          R = (if hex then 16 else 10);
          s3 = (if hex then drop 2 s2 else s2);
          Z = takeWhile (isRadixDigit R) s3
      in if Z = [] then None
         else Some ((if negative then - 1 else 1) * radixValue R Z))"

text \<open>
  The characters of a decimal numeral: decimal digits, which are neither white space, nor a
  sign, nor one of the other characters the relay gives a meaning to.
\<close>

definition isDecimal :: "char \<Rightarrow> bool" where
  "isDecimal c = (digitValue c \<noteq> None \<and> isRadixDigit 10 c \<and> \<not> isWhiteSpace c
      \<and> c \<noteq> CHR ''-'' \<and> c \<noteq> CHR ''+'' \<and> c \<noteq> CHR ''x'' \<and> c \<noteq> CHR ''X'' \<and> c \<noteq> CHR ''*'' \<and> c \<noteq> CHR ''k'')"

section \<open>The capability module: state and AUTH\<close>

text \<open>
  What the module takes from outside: \<open>verifyEvent\<close> of nostr-tools, \<open>JSON.parse\<close>
  (\<open>None\<close> when it throws) on the value of the \<open>cap\<close> tag, \<open>matchFilters\<close> of
  nostr-tools on the filters of a subscription, whose type is left open, and
  \<open>Number_toString\<close>, the conversion of a number to a string in a template literal.
\<close>

record 'f env =
  verifyEvent :: "event \<Rightarrow> bool"
  JSON_parse :: "string \<Rightarrow> event option"
  matchFilters :: "'f \<Rightarrow> event \<Rightarrow> bool"
  Number_toString :: "int \<Rightarrow> string"

definition AUTH_KIND :: int where
  "AUTH_KIND = 22242"

record auth_result =
  ok :: bool
  message :: string

text \<open>
  \<^verbatim>\<open>
  function parseGrants(cap) {
    const grants = []
    const commonsTag = cap.tags?.find(t => t[0] === 'a')
    const commons = commonsTag?.[1] || '*'
    for (const tag of cap.tags || []) {
      if (tag[0] === 'cap') {
        grants.push({ action: tag[1], scope: tag[2] || '*', commons: commons })
      }
    }
    return grants
  }
  \<close>
\<close>

primrec parseGrants_loop :: "string \<Rightarrow> string list list \<Rightarrow> grant list" where
  "parseGrants_loop c [] = []"
| "parseGrants_loop c (tag # rest) =
     (if nth_opt tag 0 = Some ''cap''
      then \<lparr>action = nth_opt tag 1, scope = or_default (nth_opt tag 2) ''*'', commons = c\<rparr>
             # parseGrants_loop c rest
      else parseGrants_loop c rest)"

definition parseGrants :: "event \<Rightarrow> grant list" where
  "parseGrants cap = parseGrants_loop (or_default (tagValue ''a'' (tags cap)) ''*'') (tags cap)"

text \<open>
  Step 8 of \<open>handleAuth\<close>: \<open>expiry && parseInt(expiry) < Date.now() / 1000\<close>, with
  \<open>now\<close> the integer \<open>Date.now()\<close>, in milliseconds. The division is exact here; a
  comparison with \<open>NaN\<close> is false.
\<close>

definition capExpired :: "string option \<Rightarrow> int \<Rightarrow> bool" where
  "capExpired expiry now =
     (truthy expiry \<and>
      (case expiry of None \<Rightarrow> False
       | Some s \<Rightarrow> (case parseInt s of None \<Rightarrow> False
                    | Some n \<Rightarrow> real_of_int n < real_of_int now / 1000)))"

definition reject :: "string \<Rightarrow> auth_result" where
  "reject msg = \<lparr>ok = False, message = msg\<rparr>"

definition authenticated :: auth_result where
  "authenticated = \<lparr>ok = True, message = ''authenticated''\<rparr>"

text \<open>\<open>x?.slice(0, 8)\<close> inside a template literal: \<open>undefined\<close> prints as that word.\<close>

definition slice8 :: "string option \<Rightarrow> string" where
  "slice8 x = (case x of None \<Rightarrow> ''undefined'' | Some s \<Rightarrow> take 8 s)"

text \<open>
  \<open>connections.set(socketId, { ...conn, pubkey: authEvent.pubkey, grants })\<close> followed by
  \<open>return { ok: true, message: 'authenticated' }\<close>: the end of both successful paths.
\<close>

definition authenticate ::
  "(string \<rightharpoonup> conn) \<Rightarrow> string \<Rightarrow> conn \<Rightarrow> event \<Rightarrow> grant list \<Rightarrow> (string \<rightharpoonup> conn) \<times> auth_result" where
  "authenticate connections socketId c authEvent gs =
     (connections(socketId \<mapsto> c\<lparr>conn.pubkey := Some (event.pubkey authEvent), grants := gs\<rparr>),
      authenticated)"

text \<open>
  Steps 5 to 9 of \<open>handleAuth\<close>, on the value of the \<open>cap\<close> tag once it is known to be
  a non-empty string.
\<close>

definition handleCap ::
  "'f env \<Rightarrow> int \<Rightarrow> (string \<rightharpoonup> conn) \<Rightarrow> string \<Rightarrow> conn \<Rightarrow> event \<Rightarrow> string
     \<Rightarrow> (string \<rightharpoonup> conn) \<times> auth_result" where
  "handleCap env now connections socketId c authEvent capJSON =
     (case JSON_parse env capJSON of
        None \<Rightarrow> (connections, reject ''invalid cap JSON'')
      | Some cap \<Rightarrow>
          if \<not> verifyEvent env cap then
            (connections, reject ''invalid cap signature'')
          else if tagValue ''p'' (tags cap) \<noteq> Some (event.pubkey authEvent) then
            (connections, reject (''grantee mismatch: cap='' @ slice8 (tagValue ''p'' (tags cap))
                                   @ '', auth='' @ slice8 (Some (event.pubkey authEvent))))
          else if capExpired (tagValue ''expiry'' (tags cap)) now then
            (connections, reject ''cap expired'')
          else authenticate connections socketId c authEvent (parseGrants cap))"

text \<open>
  \<open>handleAuth(socketId, authEvent)\<close>, steps 1 to 4 in the source's order and then
  \<open>handleCap\<close>. The map of connections is passed in and returned; \<open>now\<close> is
  \<open>Date.now()\<close>. The test \<open>!capTag || !capTag[1]\<close> holds when there is no \<open>cap\<close> tag,
  when it has one element, and when its value is the empty string.
\<close>

definition handleAuth ::
  "'f env \<Rightarrow> int \<Rightarrow> (string \<rightharpoonup> conn) \<Rightarrow> string \<Rightarrow> event \<Rightarrow> (string \<rightharpoonup> conn) \<times> auth_result" where
  "handleAuth env now connections socketId authEvent =
     (case connections socketId of
        None \<Rightarrow> (connections, reject ''connection not initialized'')
      | Some c \<Rightarrow>
          if kind authEvent \<noteq> AUTH_KIND then
            (connections, reject (''invalid auth kind: expected '' @ Number_toString env AUTH_KIND
                                   @ '', got '' @ Number_toString env (kind authEvent)))
          else if \<not> verifyEvent env authEvent then
            (connections, reject ''invalid auth signature'')
          else if tagValue ''challenge'' (tags authEvent) \<noteq> Some (challenge c) then
            (connections, reject ''invalid or missing challenge'')
          else
            (case tagValue ''cap'' (tags authEvent) of
               None \<Rightarrow> authenticate connections socketId c authEvent []
             | Some capJSON \<Rightarrow>
                 if capJSON = [] then authenticate connections socketId c authEvent []
                 else handleCap env now connections socketId c authEvent capJSON))"

section \<open>Commons registration and access control\<close>

text \<open>
  \<^verbatim>\<open>
  function processEvent(event) {
    if (event.kind === 39002) {
      const dTag = event.tags?.find(t => t[0] === 'd')?.[1]
      if (dTag) {
        const commonsRef = `39002:${event.pubkey}:${dTag}`
        enforcedCommons.add(commonsRef)
      }
    }
  }
  \<close>
  The set \<open>enforcedCommons\<close> is passed in and returned.
\<close>

definition processEvent :: "string set \<Rightarrow> event \<Rightarrow> string set" where
  "processEvent enforcedCommons e =
     (if kind e = 39002 then
        (case tagValue ''d'' (tags e) of
           None \<Rightarrow> enforcedCommons
         | Some dTag \<Rightarrow>
             if dTag = [] then enforcedCommons
             else insert (''39002:'' @ event.pubkey e @ '':'' @ dTag) enforcedCommons)
      else enforcedCommons)"

text \<open>
  The commons reference of an event, as \<open>canWrite\<close> and \<open>canRead\<close> find it:
  \<open>event.tags?.find(t => t[0] === 'a' && t[1]?.startsWith('39002:'))\<close> and then
  \<open>commonsTag[1]\<close>. It is \<open>None\<close> exactly when \<open>find\<close> returns \<open>undefined\<close>, since a tag
  that \<open>find\<close> returns has a second element.
\<close>

definition isCommonsTag :: "string list \<Rightarrow> bool" where
  "isCommonsTag t =
     (nth_opt t 0 = Some ''a'' \<and>
      (case nth_opt t 1 of None \<Rightarrow> False | Some r \<Rightarrow> startsWith r ''39002:''))"

definition commonsOf :: "event \<Rightarrow> string option" where
  "commonsOf e = (case find isCommonsTag (tags e) of None \<Rightarrow> None | Some commonsTag \<Rightarrow> nth_opt commonsTag 1)"

text \<open>\<open>commons.split(':')[1]\<close>.\<close>

definition collectivePubkey :: "string \<Rightarrow> string option" where
  "collectivePubkey c = nth_opt (split_str CHR '':'' c) 1"

datatype write_result = Allow | Deny (reason: string)

text \<open>
  \<^verbatim>\<open>
  const hasGrant = conn.grants.some(g =>
    g.action === 'publish' &&
    matchesScope(g.scope, event.kind) &&
    matchesCommons(g.commons, commons))
  \<close>
\<close>

definition hasPublishGrant :: "('n \<Rightarrow> string) \<Rightarrow> grant list \<Rightarrow> 'n \<Rightarrow> string \<Rightarrow> bool" where
  "hasPublishGrant toString gs k c =
     list_ex (\<lambda>g. action g = Some ''publish'' \<and> matchesScope toString (scope g) k
                   \<and> matchesCommons (commons g) c) gs"

text \<open>
  \<open>canWrite(socketId, event)\<close>: \<open>Allow\<close> is \<open>{ ok: true }\<close>, \<open>Deny r\<close> is
  \<open>{ ok: false, reason: r }\<close>. The connection is missing or its \<open>pubkey\<close> is falsy in the
  first two \<open>Deny\<close> branches (\<open>!conn || !conn.pubkey\<close>). \<open>env\<close> gives the conversion of
  the kind to a string, for \<open>matchesScope\<close> and for the last reason.
\<close>

definition canWrite ::
  "'f env \<Rightarrow> (string \<rightharpoonup> conn) \<Rightarrow> string set \<Rightarrow> string \<Rightarrow> event \<Rightarrow> write_result" where
  "canWrite env connections enforcedCommons socketId e =
     (case commonsOf e of
        None \<Rightarrow> Allow
      | Some c \<Rightarrow>
          if c \<notin> enforcedCommons then Allow
          else if Some (event.pubkey e) = collectivePubkey c then Allow
          else
            (case connections socketId of
               None \<Rightarrow> Deny ''auth-required: authentication required''
             | Some cn \<Rightarrow>
                 if \<not> truthy (conn.pubkey cn) then Deny ''auth-required: authentication required''
                 else if Some (event.pubkey e) \<noteq> conn.pubkey cn then
                   Deny (''blocked: pubkey mismatch (auth='' @ slice8 (conn.pubkey cn)
                         @ '', event='' @ take 8 (event.pubkey e) @ '')'')
                 else if \<not> hasPublishGrant (Number_toString env) (grants cn) (kind e) c then
                   Deny (''blocked: no publish grant for kind:'' @ Number_toString env (kind e)
                         @ '' in '' @ c)
                 else Allow))"

text \<open>
  \<^verbatim>\<open>
  const hasGrant = conn.grants.some(g =>
    (g.action === 'access' || g.action === 'publish') &&
    matchesCommons(g.commons, commons))
  \<close>
\<close>

definition hasReadGrant :: "grant list \<Rightarrow> string \<Rightarrow> bool" where
  "hasReadGrant gs c =
     list_ex (\<lambda>g. (action g = Some ''access'' \<or> action g = Some ''publish'')
                   \<and> matchesCommons (commons g) c) gs"

definition canRead :: "(string \<rightharpoonup> conn) \<Rightarrow> string set \<Rightarrow> string \<Rightarrow> event \<Rightarrow> bool" where
  "canRead connections enforcedCommons socketId e =
     (case commonsOf e of
        None \<Rightarrow> True
      | Some c \<Rightarrow>
          if c \<notin> enforcedCommons then True
          else
            (case connections socketId of
               None \<Rightarrow> False
             | Some cn \<Rightarrow>
                 if \<not> truthy (conn.pubkey cn) then False
                 else if \<not> hasReadGrant (grants cn) c then False
                 else True))"

section \<open>The relay: connections, messages, subscriptions\<close>

text \<open>
  The messages a socket sends to the relay, once parsed, and the messages the relay
  sends back. \<open>Other\<close> stands for a message of any other type and for one whose
  handling throws before it changes anything: both are logged and nothing else happens.
\<close>

datatype 'f message =
    AUTH event
  | EVENT event
  | REQ string 'f
  | CLOSE string
  | Other

datatype reply =
    Challenge string
  | OK string bool string
  | Deliver string event
  | EOSE string

text \<open>
  A JavaScript \<open>Map\<close> keeps its entries in insertion order: an association list with
  distinct keys. \<open>set\<close> on a key that is present replaces its value in place.
\<close>

fun Map_set :: "'k \<Rightarrow> 'v \<Rightarrow> ('k \<times> 'v) list \<Rightarrow> ('k \<times> 'v) list" where
  "Map_set k v [] = [(k, v)]"
| "Map_set k v (e # es) = (if fst e = k then (k, v) # es else e # Map_set k v es)"

definition Map_delete :: "'k \<Rightarrow> ('k \<times> 'v) list \<Rightarrow> ('k \<times> 'v) list" where
  "Map_delete k es = filter (\<lambda>e. fst e \<noteq> k) es"

text \<open>
  The callback of a live subscription. It is called with the event only; what it reads
  when called, the connections and the enforced commons, are its first two arguments
  here, and what it sends, to its own socket, is its result.
  \<^verbatim>\<open>
  const makecb = (lsubid, filters) => event => {
    if (matchFilters(filters, event)) {
      if (!cap.canRead(socketId, event)) return
      send(['EVENT', lsubid, event])
    }
  }
  \<close>
\<close>

type_synonym callback = "(string \<rightharpoonup> conn) \<Rightarrow> string set \<Rightarrow> event \<Rightarrow> (string \<times> reply) list"

definition makecb :: "'f env \<Rightarrow> string \<Rightarrow> string \<Rightarrow> 'f \<Rightarrow> callback" where
  "makecb env socketId lsubid filters =
     (\<lambda>cs enf e.
        if matchFilters env filters e then
          (if \<not> canRead cs enf socketId e then [] else [(socketId, Deliver lsubid e)])
        else [])"

text \<open>
  The state of the process: the two registries of the capability module, the event
  store, the global subscriptions, and for each socket the \<open>lsubs\<close> of its closure.
\<close>

record relay =
  connections :: "string \<rightharpoonup> conn"
  enforcedCommons :: "string set"
  events :: "(string \<times> event) list"
  gsubs :: "(string \<times> callback) list"
  lsubs :: "string \<Rightarrow> (string \<times> string) list"

definition initial :: relay where
  "initial = \<lparr>connections = Map.empty, enforcedCommons = {}, events = [], gsubs = [],
              lsubs = (\<lambda>_. [])\<rparr>"

text \<open>
  A socket connects: the socket id and the challenge are the two random strings the
  source draws. \<open>initConnection\<close> stores the connection and the relay sends the challenge.
\<close>

definition onConnection :: "relay \<Rightarrow> string \<Rightarrow> string \<Rightarrow> relay \<times> (string \<times> reply) list" where
  "onConnection S socketId ch =
     (S\<lparr>connections := (connections S)(socketId \<mapsto> \<lparr>pubkey = None, grants = [], challenge = ch\<rparr>),
        lsubs := (lsubs S)(socketId := [])\<rparr>,
      [(socketId, Challenge ch)])"

definition onAuth :: "'f env \<Rightarrow> int \<Rightarrow> relay \<Rightarrow> string \<Rightarrow> event \<Rightarrow> relay \<times> (string \<times> reply) list" where
  "onAuth env now S socketId authEvent =
     (case handleAuth env now (connections S) socketId authEvent of
        (cs, result) \<Rightarrow>
          (S\<lparr>connections := cs\<rparr>, [(socketId, OK (id' authEvent) (ok result) (message result))]))"

text \<open>
  An EVENT message: signature, write check, then \<open>processEvent\<close>, the store, the
  callbacks of all subscriptions in the order of \<open>gsubs\<close>, and the reply.
\<close>

definition onEvent :: "'f env \<Rightarrow> relay \<Rightarrow> string \<Rightarrow> event \<Rightarrow> relay \<times> (string \<times> reply) list" where
  "onEvent env S socketId e =
     (if \<not> verifyEvent env e then
        (S, [(socketId, OK (id' e) False ''invalid: signature verification failed'')])
      else
        (case canWrite env (connections S) (enforcedCommons S) socketId e of
           Deny r \<Rightarrow> (S, [(socketId, OK (id' e) False r)])
         | Allow \<Rightarrow>
             (let enf = processEvent (enforcedCommons S) e;
                  S' = S\<lparr>enforcedCommons := enf, events := Map_set (id' e) e (events S)\<rparr>
              in (S', concat (map (\<lambda>cb. cb (connections S') enf e) (map snd (gsubs S')))
                        @ [(socketId, OK (id' e) True [])]))))"

text \<open>
  A REQ message: the subscription is stored under \<open>`${socketId}:${lsubid}`\<close>, the stored
  events that match and may be read are sent in the order of the store, then EOSE.
\<close>

definition gsubidOf :: "string \<Rightarrow> string \<Rightarrow> string" where
  "gsubidOf socketId lsubid = socketId @ '':'' @ lsubid"

definition onReq :: "'f env \<Rightarrow> relay \<Rightarrow> string \<Rightarrow> string \<Rightarrow> 'f \<Rightarrow> relay \<times> (string \<times> reply) list" where
  "onReq env S socketId lsubid filters =
     (S\<lparr>lsubs := (lsubs S)(socketId := Map_set lsubid (gsubidOf socketId lsubid) (lsubs S socketId)),
        gsubs := Map_set (gsubidOf socketId lsubid) (makecb env socketId lsubid filters) (gsubs S)\<rparr>,
      map (\<lambda>e. (socketId, Deliver lsubid e))
          (filter (\<lambda>e. matchFilters env filters e
                        \<and> canRead (connections S) (enforcedCommons S) socketId e)
                  (map snd (events S)))
        @ [(socketId, EOSE lsubid)])"

definition onClose :: "relay \<Rightarrow> string \<Rightarrow> string \<Rightarrow> relay" where
  "onClose S socketId lsubid =
     S\<lparr>lsubs := (lsubs S)(socketId := Map_delete lsubid (lsubs S socketId)),
       gsubs := Map_delete (gsubidOf socketId lsubid) (gsubs S)\<rparr>"

definition onMessage ::
  "'f env \<Rightarrow> int \<Rightarrow> relay \<Rightarrow> string \<Rightarrow> 'f message \<Rightarrow> relay \<times> (string \<times> reply) list" where
  "onMessage env now S socketId msg =
     (case msg of
        AUTH authEvent \<Rightarrow> onAuth env now S socketId authEvent
      | EVENT e \<Rightarrow> onEvent env S socketId e
      | REQ lsubid filters \<Rightarrow> onReq env S socketId lsubid filters
      | CLOSE lsubid \<Rightarrow> (onClose S socketId lsubid, [])
      | Other \<Rightarrow> (S, []))"

text \<open>
  The socket closes: its subscriptions are removed from \<open>gsubs\<close>, its \<open>lsubs\<close> cleared,
  and \<open>cleanupConnection\<close> deletes its connection.
\<close>

definition onDisconnect :: "relay \<Rightarrow> string \<Rightarrow> relay" where
  "onDisconnect S socketId =
     S\<lparr>gsubs := fold (\<lambda>entry g. Map_delete (snd entry) g) (lsubs S socketId) (gsubs S),
       lsubs := (lsubs S)(socketId := []),
       connections := (connections S)(socketId := None)\<rparr>"

text \<open>The timer: \<open>events.clear()\<close>.\<close>

definition clearEvents :: "relay \<Rightarrow> relay" where
  "clearEvents S = S\<lparr>events := []\<rparr>"

text \<open>
  Everything that can happen to the process, one turn at a time: a socket connects, a
  message arrives (with \<open>Date.now()\<close> when it is handled), a socket closes, the timer fires.
\<close>

datatype 'f input =
    Connection string string
  | Message string int "'f message"
  | Disconnect string
  | Tick

definition step :: "'f env \<Rightarrow> relay \<Rightarrow> 'f input \<Rightarrow> relay \<times> (string \<times> reply) list" where
  "step env S i =
     (case i of
        Connection socketId ch \<Rightarrow> onConnection S socketId ch
      | Message socketId now msg \<Rightarrow> onMessage env now S socketId msg
      | Disconnect socketId \<Rightarrow> (onDisconnect S socketId, [])
      | Tick \<Rightarrow> (clearEvents S, []))"

fun run :: "'f env \<Rightarrow> relay \<Rightarrow> 'f input list \<Rightarrow> relay" where
  "run env S [] = S"
| "run env S (i # rest) = run env (fst (step env S i)) rest"

section \<open>Notions of the specification\<close>

text \<open>
  A connection is authenticated when it exists and its \<open>pubkey\<close> is truthy: the negation
  of the test \<open>!conn || !conn.pubkey\<close> of \<open>canWrite\<close> and \<open>canRead\<close>.
\<close>

definition isAuthenticated :: "(string \<rightharpoonup> conn) \<Rightarrow> string \<Rightarrow> bool" where
  "isAuthenticated cs socketId = (case cs socketId of None \<Rightarrow> False | Some cn \<Rightarrow> truthy (conn.pubkey cn))"

text \<open>
  An event is tagged with a reference when one of its tags is an \<open>a\<close> tag with that value,
  wherever it stands among the tags. \<open>commonsOf\<close> above is narrower: the value of the first
  \<open>a\<close> tag that starts with \<open>39002:\<close>.
\<close>

definition taggedWith :: "event \<Rightarrow> string \<Rightarrow> bool" where
  "taggedWith e c = list_ex (\<lambda>t. nth_opt t 0 = Some ''a'' \<and> nth_opt t 1 = Some c) (tags e)"

text \<open>
  An event is accepted when its signature is valid and \<open>canWrite\<close> allows it: the two
  tests of the EVENT handler before it registers, stores and distributes the event.
\<close>

definition accepted :: "'f env \<Rightarrow> relay \<Rightarrow> string \<Rightarrow> event \<Rightarrow> bool" where
  "accepted env S socketId e =
     (verifyEvent env e \<and> canWrite env (connections S) (enforcedCommons S) socketId e = Allow)"

text \<open>
  The grants an AUTH message presents: those parsed from the capability token in its
  \<open>cap\<close> tag, and none when it presents no token.
\<close>

definition presentedGrants :: "'f env \<Rightarrow> event \<Rightarrow> grant list" where
  "presentedGrants env authEvent =
     (case tagValue ''cap'' (tags authEvent) of
        None \<Rightarrow> []
      | Some capJSON \<Rightarrow>
          if capJSON = [] then []
          else (case JSON_parse env capJSON of None \<Rightarrow> [] | Some cap \<Rightarrow> parseGrants cap))"

section \<open>A scenario\<close>

text \<open>
  The collective \<open>A\<close> registers the commons \<open>g\<close>; \<open>B\<close> holds a token of \<open>A\<close> that grants
  \<open>publish\<close> of kind 1 in every commons of \<open>A\<close> and expires at second 1700000000. A
  signature counts as valid when it is the string \<open>valid\<close>, the only string that parses
  as a token is \<open>cap1.json\<close>, and numbers are printed as decimal numerals: the kinds of the
  scenario are 1, 2, 7, 22242, 29000 and 39002.
\<close>

definition cap1 :: event where
  "cap1 = \<lparr>id' = ''t1'', pubkey = ''A'', created_at = 0, kind = 29000,
            tags = [[''p'', ''B''], [''a'', ''39002:A:*''], [''cap'', ''publish'', ''kind:1''],
                    [''expiry'', ''1700000000'']],
            content = [], sig = ''valid''\<rparr>"

definition env0 :: "unit env" where
  "env0 = \<lparr>verifyEvent = (\<lambda>e. sig e = ''valid''),
            JSON_parse = (\<lambda>s. if s = ''cap1.json'' then Some cap1 else None),
            matchFilters = (\<lambda>_ _. True),
            Number_toString = decimal\<rparr>"

definition reg :: event where
  "reg = \<lparr>id' = ''e0'', pubkey = ''A'', created_at = 0, kind = 39002,
           tags = [[''d'', ''g'']], content = [], sig = ''valid''\<rparr>"

definition regEmpty :: event where
  "regEmpty = \<lparr>id' = ''e9'', pubkey = ''A'', created_at = 0, kind = 39002,
                tags = [[''d'', []]], content = [], sig = ''valid''\<rparr>"

definition post :: "string \<Rightarrow> int \<Rightarrow> event" where
  "post author k = \<lparr>id' = ''e1'', pubkey = author, created_at = 0, kind = k,
                     tags = [[''a'', ''39002:A:g'']], content = ''hello'', sig = ''valid''\<rparr>"

definition authB :: event where
  "authB = \<lparr>id' = ''a1'', pubkey = ''B'', created_at = 0, kind = 22242,
             tags = [[''challenge'', ''c2''], [''cap'', ''cap1.json'']], content = [], sig = ''valid''\<rparr>"

definition authB_noCap :: event where
  "authB_noCap = \<lparr>id' = ''a2'', pubkey = ''B'', created_at = 0, kind = 22242,
                   tags = [[''challenge'', ''c2'']], content = [], sig = ''valid''\<rparr>"

definition authB_stale :: event where
  "authB_stale = \<lparr>id' = ''a3'', pubkey = ''B'', created_at = 0, kind = 22242,
                   tags = [[''challenge'', ''c1'']], content = [], sig = ''valid''\<rparr>"

text \<open>The grant of \<open>cap1\<close>, and the connection of \<open>B\<close> once authenticated with it.\<close>

definition grant1 :: grant where
  "grant1 = \<lparr>action = Some ''publish'', scope = ''kind:1'', commons = ''39002:A:*''\<rparr>"

definition connB :: conn where
  "connB = \<lparr>pubkey = Some ''B'', grants = [grant1], challenge = ''c2''\<rparr>"

definition connB_fresh :: conn where
  "connB_fresh = \<lparr>pubkey = None, grants = [], challenge = ''c2''\<rparr>"

text \<open>
  The relay after \<open>A\<close> connected as socket \<open>s1\<close> and published the registration, and \<open>B\<close>
  connected as socket \<open>s2\<close>; times are in milliseconds.
\<close>

definition registered :: relay where
  "registered = run env0 initial
     [Connection ''s1'' ''c1'', Message ''s1'' 1600000000000 (EVENT reg), Connection ''s2'' ''c2'']"

text \<open>The same relay after \<open>B\<close> authenticated with its token, before the token expired.\<close>

definition authenticatedB :: relay where
  "authenticatedB = fst (step env0 registered (Message ''s2'' 1600000000000 (AUTH authB)))"

text \<open>
  Two more bad AUTH messages of \<open>B\<close>: one of kind 1, and, when tokens parse as in \<open>env1\<close>,
  one whose token names \<open>C\<close> as its grantee.
\<close>

definition authB_wrongKind :: event where
  "authB_wrongKind = authB\<lparr>kind := 1\<rparr>"

definition capForC :: event where
  "capForC = cap1\<lparr>tags := [[''p'', ''C''], [''cap'', ''publish'']]\<rparr>"

definition env1 :: "unit env" where
  "env1 = env0\<lparr>JSON_parse := (\<lambda>s. if s = ''cap1.json'' then Some capForC else None)\<rparr>"

text \<open>
  What happens next: \<open>B\<close> authenticates, subscribes, publishes, unsubscribes; both sockets
  close; the timer clears the store.
\<close>

definition laterInputs :: "unit input list" where
  "laterInputs =
     [Message ''s2'' 1600000000000 (AUTH authB),
      Message ''s2'' 1600000000001 (REQ ''sub'' ()),
      Message ''s2'' 1600000000002 (EVENT (post ''B'' 1)),
      Message ''s2'' 1600000000003 (CLOSE ''sub''),
      Disconnect ''s2'', Disconnect ''s1'', Tick]"

text \<open>
  An event tagged with two commons, first \<open>39002:X:free\<close>, which nobody registered, then
  the commons of \<open>A\<close>.
\<close>

definition twoTags :: "string \<Rightarrow> int \<Rightarrow> event" where
  "twoTags author k = \<lparr>id' = ''e2'', pubkey = author, created_at = 0, kind = k,
                        tags = [[''a'', ''39002:X:free''], [''a'', ''39002:A:g'']],
                        content = ''hello'', sig = ''valid''\<rparr>"

text \<open>
  \<open>X\<close> registers its commons \<open>h\<close> on the relay where \<open>A\<close> registered \<open>g\<close>, and \<open>A\<close> writes an
  event tagged first with the commons of \<open>X\<close>, then with its own.
\<close>

definition regX :: event where
  "regX = \<lparr>id' = ''e3'', pubkey = ''X'', created_at = 0, kind = 39002,
            tags = [[''d'', ''h'']], content = [], sig = ''valid''\<rparr>"

definition registeredX :: relay where
  "registeredX = fst (step env0 registered (Message ''s1'' 1600000000000 (EVENT regX)))"

definition ownerSecond :: event where
  "ownerSecond = \<lparr>id' = ''e4'', pubkey = ''A'', created_at = 0, kind = 1,
                   tags = [[''a'', ''39002:X:h''], [''a'', ''39002:A:g'']],
                   content = ''hello'', sig = ''valid''\<rparr>"

text \<open>The relay when only \<open>A\<close> has connected.\<close>

definition connectedA :: relay where
  "connectedA = fst (step env0 initial (Connection ''s1'' ''c1''))"

section \<open>Basic facts\<close>

lemma startsWith_prefix: "startsWith s p = prefix p s"
  unfolding startsWith_def
  by (metis append_eq_conv_conj prefix_def append_take_drop_id)

lemma endsWith_suffix: "endsWith s p = suffix p s"
  unfolding endsWith_def
  by (metis append_eq_conv_conj append_take_drop_id diff_add_inverse2 length_append suffix_def
      suffix_length_le)

lemma slice_0_minus1_butlast: "slice_0_minus1 s = butlast s"
  unfolding slice_0_minus1_def by (simp add: butlast_conv_take)

lemma ok_authenticated [simp]: "ok authenticated"
  by (simp add: authenticated_def)

lemma ok_reject [simp]: "\<not> ok (reject m)"
  by (simp add: reject_def)

lemmas tag_defs = tagValue_def findTag_def

lemmas str_defs = startsWith_def endsWith_def slice_0_minus1_def collectivePubkey_def

lemmas num_defs = decimal_def digits.simps digit_char_def

lemmas parseInt_defs = parseInt_def isWhiteSpace_def isRadixDigit_def digitValue_def radixValue_def

text \<open>
  \<open>commonsOf\<close> is \<open>None\<close> exactly when \<open>find\<close> returns no tag: the test \<open>!commonsTag\<close> of
  \<open>canWrite\<close> and \<open>canRead\<close>.
\<close>

lemma commonsOf_None: "(commonsOf e = None) = (find isCommonsTag (tags e) = None)"
proof (cases "find isCommonsTag (tags e)")
  case None
  then show ?thesis by (simp add: commonsOf_def)
next
  case (Some t)
  then have "isCommonsTag t" by (auto simp: find_Some_iff)
  then have "nth_opt t 1 \<noteq> None" by (auto simp: isCommonsTag_def split: option.splits)
  with Some show ?thesis by (simp add: commonsOf_def)
qed

text \<open>
  The commons reference of an event is one of the references it is tagged with; when
  all its \<open>a\<close> tags that start with \<open>39002:\<close> carry the same reference, that reference is
  its commons reference.
\<close>

lemma commonsOf_taggedWith:
  assumes "commonsOf e = Some c"
  shows "taggedWith e c \<and> startsWith c ''39002:''"
proof -
  obtain t where t: "find isCommonsTag (tags e) = Some t" "nth_opt t 1 = Some c"
    using assms by (auto simp: commonsOf_def split: option.splits)
  then have "t \<in> set (tags e)" "isCommonsTag t"
    by (auto simp: find_Some_iff)
  with t(2) show ?thesis
    by (auto simp: taggedWith_def list_ex_iff isCommonsTag_def)
qed

lemma commonsOf_only_reference:
  assumes "taggedWith e c" "startsWith c ''39002:''"
    and only: "\<forall>t\<in>set (tags e). isCommonsTag t \<longrightarrow> nth_opt t 1 = Some c"
  shows "commonsOf e = Some c"
proof -
  obtain t where "t \<in> set (tags e)" "isCommonsTag t"
    using assms(1,2) by (auto simp: taggedWith_def list_ex_iff isCommonsTag_def)
  then obtain u where u: "find isCommonsTag (tags e) = Some u"
    by (cases "find isCommonsTag (tags e)") (auto simp: find_None_iff)
  then have "u \<in> set (tags e)" "isCommonsTag u"
    by (auto simp: find_Some_iff)
  with only have "nth_opt u 1 = Some c" by blast
  with u show ?thesis by (simp add: commonsOf_def)
qed

subsection \<open>Numbers and their numerals\<close>

text \<open>
  \<open>parseInt\<close> reads every decimal numeral back as its number, so two numbers with the same
  numeral are equal.
\<close>

lemma below_ten: "d < 10 \<Longrightarrow> d \<in> {0, 1, 2, 3, 4, 5, 6, 7, 8, 9::nat}"
  by auto

lemma digit_char_props:
  assumes "d < 10"
  shows "digitValue (digit_char d) = Some (int d)" "isDecimal (digit_char d)"
  using below_ten [OF assms]
  by (auto simp: digit_char_def digitValue_def isRadixDigit_def isWhiteSpace_def isDecimal_def)

lemma digits_decimal: "\<forall>c\<in>set (digits n). isDecimal c"
proof (induction n rule: digits.induct)
  case (1 n)
  show ?case
  proof (cases "n < 10")
    case True
    then show ?thesis by (subst digits.simps) (simp add: digit_char_props)
  next
    case False
    then show ?thesis using 1 by (subst digits.simps) (simp add: digit_char_props)
  qed
qed

lemma digits_nonempty: "digits n \<noteq> []"
  by (subst digits.simps) simp

lemma radixValue_snoc:
  "radixValue R (ds @ [c]) = radixValue R ds * R + (case digitValue c of None \<Rightarrow> 0 | Some d \<Rightarrow> d)"
  by (simp add: radixValue_def)

lemma radixValue_digits: "radixValue 10 (digits n) = int n"
proof (induction n rule: digits.induct)
  case (1 n)
  show ?case
  proof (cases "n < 10")
    case True
    then show ?thesis
      by (subst digits.simps) (simp add: radixValue_def digit_char_props)
  next
    case False
    then have "radixValue 10 (digits n) = radixValue 10 (digits (n div 10)) * 10 + int (n mod 10)"
      by (subst digits.simps) (simp add: radixValue_snoc digit_char_props)
    also have "\<dots> = int (n div 10) * 10 + int (n mod 10)"
      using 1 False by simp
    also have "\<dots> = int n"
      by (simp add: zmod_int zdiv_int)
    finally show ?thesis .
  qed
qed

lemma parseInt_decimal:
  assumes "ds \<noteq> []" "\<forall>c\<in>set ds. isDecimal c"
  shows "parseInt ds = Some (radixValue 10 ds)" "parseInt (CHR ''-'' # ds) = Some (- radixValue 10 ds)"
proof -
  obtain c cs where ds: "ds = c # cs" using assms(1) by (cases ds) auto
  have c: "isDecimal c" using assms(2) ds by simp
  have nohex: "\<not> startsWith ds ''0x''" "\<not> startsWith ds ''0X''"
    using assms(2) ds by (cases cs; auto simp: startsWith_def isDecimal_def)+
  have all: "takeWhile (isRadixDigit 10) ds = ds"
    using assms(2) by (simp add: isDecimal_def)
  have dw: "dropWhile isWhiteSpace ds = ds"
    using c ds by (simp add: isDecimal_def)
  have neg: "(case ds of [] \<Rightarrow> False | c # _ \<Rightarrow> c = CHR ''-'') = False"
    using c ds by (simp add: isDecimal_def)
  have s2: "(case ds of [] \<Rightarrow> [] | c # r \<Rightarrow> if c = CHR ''-'' \<or> c = CHR ''+'' then r else ds) = ds"
    using c ds by (simp add: isDecimal_def)
  show "parseInt ds = Some (radixValue 10 ds)"
    using nohex assms(1) by (simp add: parseInt_def Let_def dw neg s2 all)
  show "parseInt (CHR ''-'' # ds) = Some (- radixValue 10 ds)"
    using nohex assms(1) by (simp add: parseInt_def Let_def isWhiteSpace_def all)
qed

lemma parseInt_decimal_numeral: "parseInt (decimal k) = Some k"
  by (simp add: decimal_def parseInt_decimal digits_nonempty digits_decimal radixValue_digits)

lemma decimal_inj: "decimal a = decimal b \<Longrightarrow> a = b"
  by (metis parseInt_decimal_numeral option.inject)

lemma decimal_hd: "\<exists>c cs. decimal k = c # cs \<and> (c = CHR ''-'' \<or> isDecimal c)"
proof (cases "k < 0")
  case True
  then show ?thesis by (simp add: decimal_def)
next
  case False
  obtain c cs where d: "digits (nat k) = c # cs"
    using digits_nonempty [of "nat k"] by (cases "digits (nat k)") auto
  then have "isDecimal c" using digits_decimal [of "nat k"] by simp
  with d False show ?thesis by (simp add: decimal_def)
qed

subsection \<open>AUTH\<close>

text \<open>
  What \<open>handleAuth\<close> can do: fail and leave the connections as they are, or succeed, which
  needs the connection, the AUTH kind, a valid signature and the stored challenge, and
  stores the author and the presented grants in the connection.
\<close>

lemma handleAuth_cases:
  "handleAuth env now cs sid a = (cs', r) \<Longrightarrow>
     (\<not> ok r \<and> cs' = cs) \<or>
     (\<exists>c. cs sid = Some c \<and> kind a = AUTH_KIND \<and> verifyEvent env a
          \<and> tagValue ''challenge'' (tags a) = Some (challenge c)
          \<and> r = authenticated
          \<and> cs' = cs(sid \<mapsto> c\<lparr>conn.pubkey := Some (event.pubkey a),
                                 grants := presentedGrants env a\<rparr>))"
  unfolding handleAuth_def handleCap_def authenticate_def presentedGrants_def
  by (auto split: option.splits if_splits)

text \<open>The outcome of an AUTH depends on the connections only through the stored challenge.\<close>

lemma handleAuth_result_depends:
  assumes "map_option challenge (cs1 sid) = map_option challenge (cs2 sid)"
  shows "snd (handleAuth env now cs1 sid a) = snd (handleAuth env now cs2 sid a)"
  using assms unfolding handleAuth_def handleCap_def authenticate_def
  by (auto split: option.splits if_splits)

subsection \<open>The scenario, evaluated\<close>

lemma registered_enforced: "enforcedCommons registered = {''39002:A:g''}"
  by (simp add: registered_def initial_def step_def onConnection_def onMessage_def onEvent_def
      env0_def reg_def canWrite_def commonsOf_def isCommonsTag_def processEvent_def tag_defs Let_def)

lemma registered_connections:
  "connections registered ''s2'' = Some connB_fresh" "connections registered ''s3'' = None"
  by (simp_all add: registered_def initial_def step_def onConnection_def onMessage_def onEvent_def
      env0_def reg_def canWrite_def commonsOf_def isCommonsTag_def processEvent_def tag_defs Let_def
      connB_fresh_def)

lemma commonsOf_post: "commonsOf (post author k) = Some ''39002:A:g''"
  by (simp add: post_def commonsOf_def isCommonsTag_def str_defs)

lemma registered_s1:
  "connections registered ''s1'' = Some \<lparr>pubkey = None, grants = [], challenge = ''c1''\<rparr>"
  by (simp add: registered_def initial_def step_def onConnection_def onMessage_def onEvent_def
      env0_def reg_def canWrite_def commonsOf_def isCommonsTag_def processEvent_def tag_defs Let_def)

lemma registeredX_enforced: "enforcedCommons registeredX = {''39002:X:h'', ''39002:A:g''}"
  by (simp add: registeredX_def step_def onMessage_def onEvent_def env0_def regX_def canWrite_def
      commonsOf_def isCommonsTag_def processEvent_def tag_defs Let_def registered_enforced)

lemma registeredX_connections: "connections registeredX = connections registered"
  by (simp add: registeredX_def step_def onMessage_def onEvent_def env0_def regX_def canWrite_def
      commonsOf_def isCommonsTag_def Let_def)

lemma commonsOf_ownerSecond: "commonsOf ownerSecond = Some ''39002:X:h''"
  by (simp add: ownerSecond_def commonsOf_def isCommonsTag_def str_defs)

lemma taggedWith_ownerSecond: "taggedWith ownerSecond ''39002:A:g''"
  by (simp add: ownerSecond_def taggedWith_def)

lemma owner_X: "collectivePubkey ''39002:X:h'' = Some ''X''"
  by (simp add: collectivePubkey_def)

lemma commonsOf_twoTags: "commonsOf (twoTags author k) = Some ''39002:X:free''"
  by (simp add: twoTags_def commonsOf_def isCommonsTag_def str_defs)

lemma taggedWith_twoTags: "taggedWith (twoTags author k) ''39002:A:g''"
  by (simp add: twoTags_def taggedWith_def)

lemma owner_A: "collectivePubkey ''39002:A:g'' = Some ''A''"
  by (simp add: collectivePubkey_def)

lemma parseGrants_cap1: "parseGrants cap1 = [grant1]"
  by (simp add: parseGrants_def cap1_def tag_defs or_default_def grant1_def numeral_2_eq_2)

lemma parseInt_expiry: "parseInt ''1700000000'' = Some 1700000000"
  by (simp add: parseInt_defs str_defs)

lemma handleAuth_authB:
  "handleAuth env0 1600000000000 (connections registered) ''s2'' authB
     = ((connections registered)(''s2'' \<mapsto> connB), authenticated)"
  by (simp add: handleAuth_def handleCap_def authenticate_def registered_connections connB_fresh_def
      authB_def env0_def cap1_def tag_defs AUTH_KIND_def capExpired_def parseInt_expiry
      parseGrants_cap1[unfolded cap1_def] connB_def)

lemma handleAuth_authB_ok:
  "ok (snd (handleAuth env0 1600000000000 (connections registered) ''s2'' authB))"
  by (simp add: handleAuth_authB)

lemma authenticatedB_connections:
  "connections authenticatedB = (connections registered)(''s2'' \<mapsto> connB)"
  by (simp add: authenticatedB_def step_def onMessage_def onAuth_def handleAuth_authB)

lemma authenticatedB_s2: "connections authenticatedB ''s2'' = Some connB"
  by (simp add: authenticatedB_connections)

lemma authenticatedB_enforced: "enforcedCommons authenticatedB = {''39002:A:g''}"
  by (simp add: authenticatedB_def step_def onMessage_def onAuth_def handleAuth_authB
      registered_enforced)

lemma authB_stale_fails:
  "snd (handleAuth env0 1600000000000 (connections authenticatedB) ''s2'' authB_stale)
     = reject ''invalid or missing challenge''"
  by (simp add: handleAuth_def authB_stale_def env0_def tag_defs AUTH_KIND_def connB_def
      authenticatedB_s2)

lemma presentedGrants_noCap: "presentedGrants env0 authB_noCap = []"
  by (simp add: presentedGrants_def authB_noCap_def tag_defs)

lemma handleAuth_noCap_ok:
  "ok (snd (handleAuth env0 1600000000000 (connections authenticatedB) ''s2'' authB_noCap))"
  by (simp add: handleAuth_def authenticate_def authB_noCap_def env0_def tag_defs AUTH_KIND_def
      connB_def authenticatedB_s2)

section \<open>Grant matching: the claims\<close>

text \<open>
  Claim C4. For every pair of strings, \<open>matchesCommons grantRef targetRef\<close> is true if and
  only if \<open>grantRef\<close> is \<open>*\<close>, or equals \<open>targetRef\<close>, or ends with \<open>:*\<close> while
  \<open>targetRef\<close> starts with \<open>grantRef\<close> less its last character. In particular
  \<open>39002:OWNER:*\<close> matches \<open>39002:OWNER:general\<close>, \<open>39002:OWNER:general\<close> does not match
  \<open>39002:OWNER:other\<close>, and \<open>*\<close> matches every target.
\<close>

theorem matchesCommons_iff:
  "(\<forall>grantRef targetRef.
      matchesCommons grantRef targetRef =
        (grantRef = ''*'' \<or> grantRef = targetRef
         \<or> (suffix '':*'' grantRef \<and> prefix (butlast grantRef) targetRef)))
   \<and> matchesCommons ''39002:OWNER:*'' ''39002:OWNER:general''
   \<and> \<not> matchesCommons ''39002:OWNER:general'' ''39002:OWNER:other''
   \<and> (\<forall>t. matchesCommons ''*'' t)"
proof -
  have general: "matchesCommons g t = (g = ''*'' \<or> g = t \<or> (suffix '':*'' g \<and> prefix (butlast g) t))"
    for g t
    unfolding matchesCommons_def
    by (simp add: endsWith_suffix startsWith_prefix slice_0_minus1_butlast)
  have yes: "matchesCommons ''39002:OWNER:*'' ''39002:OWNER:general''"
    by (simp add: matchesCommons_def str_defs)
  have no: "\<not> matchesCommons ''39002:OWNER:general'' ''39002:OWNER:other''"
    by (simp add: matchesCommons_def str_defs)
  have star: "matchesCommons ''*'' t" for t
    by (simp add: matchesCommons_def)
  from general yes no star show ?thesis by blast
qed

text \<open>
  Claim C5. For every string and every kind, \<open>matchesScope\<close> is true if and only if the
  scope is \<open>*\<close>, or is the kind written as a bare number, or is \<open>kind:\<close> followed by that
  number, whatever the type of the numbers and the conversion that writes them. In
  particular, under every conversion that writes 1 as \<open>1\<close> and 2 as \<open>2\<close>, as JavaScript's
  does and as the decimal numerals do, \<open>kind:1\<close>, \<open>1\<close> and \<open>*\<close> match kind 1, and \<open>kind:1\<close>
  does not match kind 2.
\<close>

theorem matchesScope_iff:
  "(\<forall>toString s k. matchesScope toString s k =
        (s = ''*'' \<or> s = toString k \<or> s = ''kind:'' @ toString k))
   \<and> (\<forall>toString. toString 1 = ''1'' \<and> toString 2 = ''2''
        \<longrightarrow> matchesScope toString ''kind:1'' 1 \<and> matchesScope toString ''1'' 1
            \<and> matchesScope toString ''*'' 1 \<and> \<not> matchesScope toString ''kind:1'' 2)
   \<and> matchesScope decimal ''kind:1'' 1 \<and> matchesScope decimal ''1'' 1
   \<and> matchesScope decimal ''*'' 1 \<and> \<not> matchesScope decimal ''kind:1'' 2"
proof -
  have general: "matchesScope toString s k = (s = ''*'' \<or> s = toString k \<or> s = ''kind:'' @ toString k)"
    for toString :: "'n \<Rightarrow> string" and s k
    unfolding matchesScope_def by auto
  have ex: "matchesScope toString ''kind:1'' 1 \<and> matchesScope toString ''1'' 1
            \<and> matchesScope toString ''*'' 1 \<and> \<not> matchesScope toString ''kind:1'' 2"
    if "toString 1 = ''1'' \<and> toString 2 = ''2''" for toString :: "'m::numeral \<Rightarrow> string"
    using that by (simp add: matchesScope_def)
  have d: "decimal 1 = ''1'' \<and> decimal 2 = ''2''"
    by (simp add: num_defs)
  from general ex ex [OF d] show ?thesis by blast
qed

text \<open>
  The decimal numerals of 1 and 2 are \<open>1\<close> and \<open>2\<close>: the hypothesis on the conversion holds
  for them, and so do the four instances.
\<close>

theorem matchesScope_iff_witness:
  "decimal 1 = ''1'' \<and> decimal 2 = ''2''
   \<and> matchesScope decimal ''kind:1'' 1 \<and> matchesScope decimal ''1'' 1
   \<and> matchesScope decimal ''*'' 1 \<and> \<not> matchesScope decimal ''kind:1'' 2"
proof -
  have d: "decimal 1 = ''1'' \<and> decimal 2 = ''2''"
    by (simp add: num_defs)
  with matchesScope_iff [where ?'b = int] show ?thesis by blast
qed

section \<open>Authentication: the claims\<close>

lemma handleAuth_failure:
  "\<not> ok (snd (handleAuth env now cs sid a)) \<Longrightarrow> fst (handleAuth env now cs sid a) = cs"
  using handleAuth_cases [of env now cs sid a "fst (handleAuth env now cs sid a)"
      "snd (handleAuth env now cs sid a)"]
  by auto

text \<open>
  Claim C7. After a successful AUTH the grants of the connection are exactly those the
  AUTH message presents: the grants parsed from its capability token, or none when it
  presents no token. They replace whatever the connection held: the connections before
  the call are arbitrary, so in particular they may come from an earlier AUTH, whose
  grants are not merged in.
\<close>

theorem auth_replaces_grants:
  "(ok (snd (handleAuth env now cs sid a)) \<longrightarrow>
      map_option grants (fst (handleAuth env now cs sid a) sid) = Some (presentedGrants env a))
   \<and> (ok (snd (handleAuth env now2 (fst (handleAuth env now1 cs sid a1)) sid a2)) \<longrightarrow>
      map_option grants (fst (handleAuth env now2 (fst (handleAuth env now1 cs sid a1)) sid a2) sid)
        = Some (presentedGrants env a2))"
proof -
  have one: "ok (snd (handleAuth env n c sid b)) \<Longrightarrow>
      map_option grants (fst (handleAuth env n c sid b) sid) = Some (presentedGrants env b)"
    for n c b
    using handleAuth_cases [of env n c sid b "fst (handleAuth env n c sid b)"
        "snd (handleAuth env n c sid b)"]
    by auto
  show ?thesis using one by blast
qed

text \<open>
  In the scenario \<open>B\<close> holds the grant of its token; it authenticates again with no token
  and holds no grant.
\<close>

theorem auth_replaces_grants_witness:
  "map_option grants (connections authenticatedB ''s2'') = Some [grant1]
   \<and> ok (snd (handleAuth env0 1600000000000 (connections authenticatedB) ''s2'' authB_noCap))
   \<and> map_option grants
        (fst (handleAuth env0 1600000000000 (connections authenticatedB) ''s2'' authB_noCap) ''s2'')
      = Some []"
  using auth_replaces_grants [of env0 1600000000000 "connections authenticatedB" "''s2''" authB_noCap]
    handleAuth_noCap_ok
  by (simp add: authenticatedB_s2 connB_def presentedGrants_noCap)

lemma capExpired_iff:
  "capExpired x now = (\<exists>s n. x = Some s \<and> parseInt s = Some n \<and> real_of_int n < real_of_int now / 1000)"
  unfolding capExpired_def
  by (auto simp: parseInt_defs split: option.splits)

lemma handleAuth_to_expiry:
  assumes "cs sid = Some c" "kind a = AUTH_KIND" "verifyEvent env a"
    "tagValue ''challenge'' (tags a) = Some (challenge c)"
    "tagValue ''cap'' (tags a) = Some j" "j \<noteq> []" "JSON_parse env j = Some cap"
    "verifyEvent env cap" "tagValue ''p'' (tags cap) = Some (event.pubkey a)"
  shows "handleAuth env now cs sid a =
           (if capExpired (tagValue ''expiry'' (tags cap)) now then (cs, reject ''cap expired'')
            else authenticate cs sid c a (parseGrants cap))"
  using assms by (simp add: handleAuth_def handleCap_def)

text \<open>
  Claim C8. Take an AUTH message that passes every check before the expiry check: the
  connection exists, the kind is 22242, the signature is valid, the challenge is the stored
  one, the \<open>cap\<close> tag holds a non-empty string that parses to a token, the signature of the
  token is valid and its grantee is the author of the message. The time of the check is
  \<open>now / 1000\<close> seconds, and the numeric value of the expiry is what \<open>parseInt\<close> reads from
  the value of the first \<open>expiry\<close> tag. If that value is strictly less than the time, the
  AUTH fails with \<open>cap expired\<close> and changes nothing. If the token has no \<open>expiry\<close> tag, or
  the value is greater than or equal to the time, the AUTH succeeds.
\<close>

theorem cap_expiry_check:
  assumes "cs sid = Some c" "kind a = AUTH_KIND" "verifyEvent env a"
    "tagValue ''challenge'' (tags a) = Some (challenge c)"
    "tagValue ''cap'' (tags a) = Some j" "j \<noteq> []" "JSON_parse env j = Some cap"
    "verifyEvent env cap" "tagValue ''p'' (tags cap) = Some (event.pubkey a)"
  shows "(\<forall>s n. tagValue ''expiry'' (tags cap) = Some s \<and> parseInt s = Some n
               \<and> real_of_int n < real_of_int now / 1000
            \<longrightarrow> handleAuth env now cs sid a = (cs, reject ''cap expired''))
       \<and> (findTag ''expiry'' (tags cap) = None \<longrightarrow> ok (snd (handleAuth env now cs sid a)))
       \<and> (\<forall>s n. tagValue ''expiry'' (tags cap) = Some s \<and> parseInt s = Some n
               \<and> real_of_int now / 1000 \<le> real_of_int n
            \<longrightarrow> ok (snd (handleAuth env now cs sid a)))"
proof -
  have h: "handleAuth env now cs sid a =
           (if capExpired (tagValue ''expiry'' (tags cap)) now then (cs, reject ''cap expired'')
            else authenticate cs sid c a (parseGrants cap))"
    using assms by (rule handleAuth_to_expiry [where cs = cs and sid = sid])
  have expired: "handleAuth env now cs sid a = (cs, reject ''cap expired'')"
    if "tagValue ''expiry'' (tags cap) = Some s" "parseInt s = Some n"
       "real_of_int n < real_of_int now / 1000" for s n
    using that h by (auto simp: capExpired_iff)
  have absent: "ok (snd (handleAuth env now cs sid a))" if "findTag ''expiry'' (tags cap) = None"
    using that h by (simp add: capExpired_iff tagValue_def authenticate_def)
  have later: "ok (snd (handleAuth env now cs sid a))"
    if "tagValue ''expiry'' (tags cap) = Some s" "parseInt s = Some n"
       "real_of_int now / 1000 \<le> real_of_int n" for s n
    using that h by (simp add: capExpired_iff authenticate_def)
  from expired absent later show ?thesis by blast
qed

text \<open>
  In the scenario the token expires at second 1700000000: it is refused at second
  1800000000 and accepted at seconds 1600000000 and 1700000000.
\<close>

theorem cap_expiry_check_witness:
  "tagValue ''expiry'' (tags cap1) = Some ''1700000000''
   \<and> parseInt ''1700000000'' = Some 1700000000
   \<and> handleAuth env0 1800000000000 (connections registered) ''s2'' authB
       = (connections registered, reject ''cap expired'')
   \<and> ok (snd (handleAuth env0 1600000000000 (connections registered) ''s2'' authB))
   \<and> ok (snd (handleAuth env0 1700000000000 (connections registered) ''s2'' authB))"
proof -
  have pre: "connections registered ''s2'' = Some connB_fresh" "kind authB = AUTH_KIND"
    "verifyEvent env0 authB" "tagValue ''challenge'' (tags authB) = Some (challenge connB_fresh)"
    "tagValue ''cap'' (tags authB) = Some ''cap1.json''" "''cap1.json'' \<noteq> []"
    "JSON_parse env0 ''cap1.json'' = Some cap1" "verifyEvent env0 cap1"
    "tagValue ''p'' (tags cap1) = Some (event.pubkey authB)"
    by (simp_all add: registered_connections authB_def AUTH_KIND_def env0_def tag_defs
        connB_fresh_def cap1_def)
  have ex: "tagValue ''expiry'' (tags cap1) = Some ''1700000000''"
    by (simp add: cap1_def tag_defs)
  note inst = cap_expiry_check [where cs = "connections registered" and sid = "''s2''" and env = env0
      and a = authB and cap = cap1 and c = connB_fresh and j = "''cap1.json''"]
  from inst [where now = 1800000000000] inst [where now = 1600000000000]
    inst [where now = 1700000000000] pre ex parseInt_expiry
  show ?thesis by simp
qed

text \<open>
  Claim C9. A successful AUTH does not invalidate the challenge: the stored challenge is
  the same after it; the same AUTH message succeeds again; every later AUTH message has
  the outcome it would have had before, so one that carries the same challenge and is
  otherwise valid succeeds; and the stored challenge is still the same after that one.
\<close>

theorem challenge_not_invalidated:
  "ok (snd (handleAuth env now cs sid a)) \<Longrightarrow>
     map_option challenge (fst (handleAuth env now cs sid a) sid) = map_option challenge (cs sid)
     \<and> ok (snd (handleAuth env now (fst (handleAuth env now cs sid a)) sid a))
     \<and> (\<forall>a2 now2. snd (handleAuth env now2 (fst (handleAuth env now cs sid a)) sid a2)
                    = snd (handleAuth env now2 cs sid a2))
     \<and> (\<forall>a2 now2.
           map_option challenge
             (fst (handleAuth env now2 (fst (handleAuth env now cs sid a)) sid a2) sid)
           = map_option challenge (cs sid))"
proof -
  assume succ: "ok (snd (handleAuth env now cs sid a))"
  have keep: "map_option challenge (fst (handleAuth env n c sid b) sid) = map_option challenge (c sid)"
    for n c b
    using handleAuth_cases [of env n c sid b "fst (handleAuth env n c sid b)"
        "snd (handleAuth env n c sid b)"]
    by auto
  let ?cs1 = "fst (handleAuth env now cs sid a)"
  have same: "snd (handleAuth env n ?cs1 sid b) = snd (handleAuth env n cs sid b)" for n b
    by (rule handleAuth_result_depends) (rule keep)
  have again: "ok (snd (handleAuth env now ?cs1 sid a))"
    using succ by (simp add: same)
  have after: "map_option challenge (fst (handleAuth env n ?cs1 sid b) sid)
                 = map_option challenge (cs sid)" for n b
    by (simp add: keep)
  from keep same again after show ?thesis by blast
qed

theorem challenge_not_invalidated_witness:
  "ok (snd (handleAuth env0 1600000000000 (connections registered) ''s2'' authB))
   \<and> map_option challenge (connections registered ''s2'') = Some ''c2''
   \<and> map_option challenge
        (fst (handleAuth env0 1600000000000 (connections registered) ''s2'' authB) ''s2'')
      = Some ''c2''
   \<and> ok (snd (handleAuth env0 1600000000000
               (fst (handleAuth env0 1600000000000 (connections registered) ''s2'' authB))
               ''s2'' authB))"
  using challenge_not_invalidated [of env0 1600000000000 "connections registered" "''s2''" authB]
    handleAuth_authB_ok
  by (simp add: registered_connections connB_fresh_def)

text \<open>
  Claim C10. A failed AUTH is atomic: when \<open>handleAuth\<close> returns a failure, whatever the
  reason, the connections are the ones before the call, so the record of the connection
  (identity, grants, challenge) is unchanged, and so is the whole state of the relay.
\<close>

theorem failed_auth_changes_nothing:
  "\<not> ok (snd (handleAuth env now (connections S) sid a)) \<Longrightarrow>
     fst (handleAuth env now (connections S) sid a) = connections S
     \<and> fst (onAuth env now S sid a) = S"
  using handleAuth_failure [of env now "connections S" sid a]
  by (auto simp: onAuth_def split: prod.splits)

text \<open>
  In the scenario \<open>B\<close>, authenticated, sends an AUTH with the challenge of another socket:
  it fails and \<open>B\<close> keeps its identity and its grant.
\<close>

theorem failed_auth_changes_nothing_witness:
  "snd (handleAuth env0 1600000000000 (connections authenticatedB) ''s2'' authB_stale)
     = reject ''invalid or missing challenge''
   \<and> fst (onAuth env0 1600000000000 authenticatedB ''s2'' authB_stale) = authenticatedB
   \<and> connections authenticatedB ''s2'' = Some connB"
  using failed_auth_changes_nothing [of env0 1600000000000 authenticatedB "''s2''" authB_stale]
  by (simp add: authB_stale_fails authenticatedB_s2)

section \<open>Registration and access control: the claims\<close>

subsection \<open>What changes the enforced set\<close>

lemma processEvent_cases:
  "processEvent enf e =
     (if kind e = 39002 \<and> truthy (tagValue ''d'' (tags e))
      then insert (''39002:'' @ event.pubkey e @ '':'' @ or_default (tagValue ''d'' (tags e)) []) enf
      else enf)"
  by (auto simp: processEvent_def or_default_def split: option.splits)

lemma processEvent_mono: "enf \<subseteq> processEvent enf e"
  by (auto simp: processEvent_cases)

lemma onEvent_enforced:
  "enforcedCommons (fst (onEvent env S sid e)) =
     (if accepted env S sid e then processEvent (enforcedCommons S) e else enforcedCommons S)"
  by (simp add: onEvent_def accepted_def Let_def split: write_result.splits)

lemma onMessage_enforced:
  "enforcedCommons (fst (onMessage env now S sid msg)) =
     (case msg of EVENT e \<Rightarrow> enforcedCommons (fst (onEvent env S sid e)) | _ \<Rightarrow> enforcedCommons S)"
  by (simp add: onMessage_def onAuth_def onReq_def onClose_def split: message.splits prod.splits)

lemma step_enforced:
  "enforcedCommons (fst (step env S i)) =
     (case i of Message sid now (EVENT e) \<Rightarrow> enforcedCommons (fst (onEvent env S sid e))
      | _ \<Rightarrow> enforcedCommons S)"
  by (simp add: step_def onMessage_enforced onConnection_def onDisconnect_def clearEvents_def
      split: input.splits message.splits)

lemma step_enforced_mono: "enforcedCommons S \<subseteq> enforcedCommons (fst (step env S i))"
  using processEvent_mono [of "enforcedCommons S"]
  by (auto simp: step_enforced onEvent_enforced split: input.splits message.splits)

lemma run_enforced_mono: "enforcedCommons S \<subseteq> enforcedCommons (run env S inputs)"
proof (induction inputs arbitrary: S)
  case Nil
  show ?case by simp
next
  case (Cons i rest)
  have "enforcedCommons S \<subseteq> enforcedCommons (fst (step env S i))"
    by (rule step_enforced_mono)
  also have "\<dots> \<subseteq> enforcedCommons (run env (fst (step env S i)) rest)"
    by (rule Cons.IH)
  finally show ?case by simp
qed

subsection \<open>The owner's write access and the registration\<close>

lemma accepted_reply:
  "accepted env S sid e = (last (snd (onEvent env S sid e)) = (sid, OK (id' e) True []))"
  by (simp add: accepted_def onEvent_def Let_def split: write_result.splits)

text \<open>
  Claim C1, as amended. Take an event whose commons reference, the value of its first \<open>a\<close>
  tag that starts with \<open>39002:\<close>, is enforced. If its author is the owner of that commons,
  the second colon-delimited field of the reference, \<open>canWrite\<close> allows the write, whatever
  the connection. If its author is not the owner and the connection is not authenticated,
  \<open>canWrite\<close> rejects with a reason that starts with \<open>auth-required:\<close>. A commons becomes
  enforced exactly when a kind-39002 event whose first \<open>d\<close> tag has a non-empty value is
  accepted, and the reference added is \<open>39002:<author>:<value>\<close>: an accepted event of that
  kind and shape adds that reference, any other EVENT message leaves the enforced set as it
  is, and so does every turn of the relay that is not an EVENT message. An event is
  accepted when the reply to its sender, the last message the relay sends for it, is \<open>OK\<close>
  with \<open>true\<close>.
\<close>

theorem owner_write_and_registration:
  "(commonsOf e = Some c \<and> c \<in> enf \<and> collectivePubkey c = Some (event.pubkey e)
      \<longrightarrow> canWrite env cs enf sid e = Allow)
   \<and> (commonsOf e = Some c \<and> c \<in> enf \<and> collectivePubkey c \<noteq> Some (event.pubkey e)
        \<and> \<not> isAuthenticated cs sid
      \<longrightarrow> (\<exists>r. canWrite env cs enf sid e = Deny r \<and> prefix ''auth-required:'' r))
   \<and> (\<forall>d. accepted env S sid e \<and> kind e = 39002 \<and> tagValue ''d'' (tags e) = Some d \<and> d \<noteq> []
      \<longrightarrow> enforcedCommons (fst (onEvent env S sid e))
            = insert (''39002:'' @ event.pubkey e @ '':'' @ d) (enforcedCommons S))
   \<and> (\<not> (accepted env S sid e \<and> kind e = 39002 \<and> truthy (tagValue ''d'' (tags e)))
      \<longrightarrow> enforcedCommons (fst (onEvent env S sid e)) = enforcedCommons S)
   \<and> ((\<forall>sid' now' e'. i \<noteq> Message sid' now' (EVENT e'))
      \<longrightarrow> enforcedCommons (fst (step env S i)) = enforcedCommons S)
   \<and> step env S (Message sid now (EVENT e)) = onEvent env S sid e
   \<and> accepted env S sid e = (last (snd (onEvent env S sid e)) = (sid, OK (id' e) True []))"
proof -
  have owner: "canWrite env cs enf sid e = Allow"
    if "commonsOf e = Some c" "c \<in> enf" "collectivePubkey c = Some (event.pubkey e)"
    using that by (simp add: canWrite_def)
  have unauth: "\<exists>r. canWrite env cs enf sid e = Deny r \<and> prefix ''auth-required:'' r"
    if "commonsOf e = Some c" "c \<in> enf" "collectivePubkey c \<noteq> Some (event.pubkey e)"
       "\<not> isAuthenticated cs sid"
    using that by (auto simp: canWrite_def isAuthenticated_def split: option.splits)
  have registers: "enforcedCommons (fst (onEvent env S sid e))
            = insert (''39002:'' @ event.pubkey e @ '':'' @ d) (enforcedCommons S)"
    if "accepted env S sid e" "kind e = 39002" "tagValue ''d'' (tags e) = Some d" "d \<noteq> []" for d
    using that by (simp add: onEvent_enforced processEvent_def)
  have unchanged: "enforcedCommons (fst (onEvent env S sid e)) = enforcedCommons S"
    if "\<not> (accepted env S sid e \<and> kind e = 39002 \<and> truthy (tagValue ''d'' (tags e)))"
    using that by (auto simp: onEvent_enforced processEvent_cases)
  have other: "enforcedCommons (fst (step env S i)) = enforcedCommons S"
    if "\<forall>sid' now' e'. i \<noteq> Message sid' now' (EVENT e')"
    using that by (auto simp: step_enforced split: input.splits message.splits)
  have st: "step env S (Message sid now (EVENT e)) = onEvent env S sid e"
    by (simp add: step_def onMessage_def)
  show ?thesis
  proof (intro conjI allI impI)
    show "canWrite env cs enf sid e = Allow"
      if "commonsOf e = Some c \<and> c \<in> enf \<and> collectivePubkey c = Some (event.pubkey e)"
      using that owner by blast
    show "\<exists>r. canWrite env cs enf sid e = Deny r \<and> prefix ''auth-required:'' r"
      if "commonsOf e = Some c \<and> c \<in> enf \<and> collectivePubkey c \<noteq> Some (event.pubkey e)
          \<and> \<not> isAuthenticated cs sid"
      using that unauth by blast
    show "enforcedCommons (fst (onEvent env S sid e))
            = insert (''39002:'' @ event.pubkey e @ '':'' @ d) (enforcedCommons S)"
      if "accepted env S sid e \<and> kind e = 39002 \<and> tagValue ''d'' (tags e) = Some d \<and> d \<noteq> []" for d
      using that registers by blast
    show "enforcedCommons (fst (onEvent env S sid e)) = enforcedCommons S"
      if "\<not> (accepted env S sid e \<and> kind e = 39002 \<and> truthy (tagValue ''d'' (tags e)))"
      using unchanged [OF that] .
    show "enforcedCommons (fst (step env S i)) = enforcedCommons S"
      if "\<forall>sid' now' e'. i \<noteq> Message sid' now' (EVENT e')"
      using other [OF that] .
    show "step env S (Message sid now (EVENT e)) = onEvent env S sid e"
      by (rule st)
    show "accepted env S sid e = (last (snd (onEvent env S sid e)) = (sid, OK (id' e) True []))"
      by (rule accepted_reply)
  qed
qed

lemma post_fields [simp]: "event.pubkey (post author k) = author" "kind (post author k) = k"
  by (simp_all add: post_def)

lemma connectedA_enforced: "enforcedCommons connectedA = {}"
  by (simp add: connectedA_def step_def onConnection_def initial_def)

lemma canWrite_noCommons: "commonsOf e = None \<Longrightarrow> canWrite env cs enf sid e = Allow"
  by (simp add: canWrite_def)

lemma commonsOf_reg: "commonsOf reg = None" "commonsOf regEmpty = None"
  by (simp_all add: commonsOf_def reg_def regEmpty_def isCommonsTag_def)

lemma accepted_reg: "accepted env0 connectedA ''s1'' reg" "accepted env0 connectedA ''s1'' regEmpty"
  by (simp_all add: accepted_def canWrite_noCommons commonsOf_reg) (simp_all add: env0_def reg_def regEmpty_def)

lemma registered_not_auth: "\<not> isAuthenticated (connections registered) ''s2''"
  "\<not> isAuthenticated (connections registered) ''s3''"
  by (simp_all add: isAuthenticated_def registered_connections connB_fresh_def)

text \<open>
  The claim as first stated fails in three places. It has every accepted kind-39002 event
  with a \<open>d\<close> tag register a commons: the event \<open>regEmpty\<close> of \<open>A\<close> is of kind 39002, its
  only tag is \<open>["d", ""]\<close>, and the relay accepts it; \<open>processEvent\<close> finds the empty value
  falsy, and \<open>39002:A:\<close> is not enforced afterwards. It speaks of every event tagged with an
  enforced commons: the event \<open>twoTags ''B'' 1\<close> of \<open>B\<close> is tagged with the enforced
  \<open>39002:A:g\<close> behind \<open>39002:X:free\<close>, which is not enforced, and \<open>canWrite\<close>, which looks
  at the first of the two, allows it on the unauthenticated socket of \<open>B\<close>; and where
  \<open>39002:X:h\<close> is enforced too, the event \<open>ownerSecond\<close> of \<open>A\<close>, tagged with \<open>39002:X:h\<close> and
  then with its own \<open>39002:A:g\<close>, is refused on an unauthenticated socket.
\<close>

theorem owner_write_and_registration_counterexample:
  "last (snd (step env0 connectedA (Message ''s1'' 1600000000000 (EVENT regEmpty))))
      = (''s1'', OK ''e9'' True [])
   \<and> kind regEmpty = 39002
   \<and> event.pubkey regEmpty = ''A''
   \<and> tags regEmpty = [[''d'', []]]
   \<and> ''39002:A:'' \<notin> enforcedCommons (fst (step env0 connectedA (Message ''s1'' 1600000000000 (EVENT regEmpty))))
   \<and> taggedWith (twoTags ''B'' 1) ''39002:A:g''
   \<and> ''39002:A:g'' \<in> enforcedCommons registered
   \<and> collectivePubkey ''39002:A:g'' = Some ''A''
   \<and> event.pubkey (twoTags ''B'' 1) = ''B''
   \<and> \<not> isAuthenticated (connections registered) ''s2''
   \<and> canWrite env0 (connections registered) (enforcedCommons registered) ''s2'' (twoTags ''B'' 1) = Allow
   \<and> taggedWith ownerSecond ''39002:A:g''
   \<and> ''39002:A:g'' \<in> enforcedCommons registeredX
   \<and> event.pubkey ownerSecond = ''A''
   \<and> canWrite env0 (connections registeredX) (enforcedCommons registeredX) ''s1'' ownerSecond
       = Deny ''auth-required: authentication required''"
proof -
  have st: "step env0 connectedA (Message ''s1'' 1600000000000 (EVENT regEmpty)) = onEvent env0 connectedA ''s1'' regEmpty"
    by (simp add: step_def onMessage_def)
  have rep: "last (snd (onEvent env0 connectedA ''s1'' regEmpty)) = (''s1'', OK ''e9'' True [])"
    using accepted_reg(2) by (simp add: accepted_reply regEmpty_def)
  have enf: "enforcedCommons (fst (onEvent env0 connectedA ''s1'' regEmpty)) = {}"
    by (simp add: onEvent_enforced accepted_reg processEvent_def connectedA_enforced) (simp add: regEmpty_def tag_defs)
  have empty: "last (snd (step env0 connectedA (Message ''s1'' 1600000000000 (EVENT regEmpty))))
      = (''s1'', OK ''e9'' True [])
   \<and> kind regEmpty = 39002
   \<and> event.pubkey regEmpty = ''A''
   \<and> tags regEmpty = [[''d'', []]]
   \<and> ''39002:A:'' \<notin> enforcedCommons (fst (step env0 connectedA (Message ''s1'' 1600000000000 (EVENT regEmpty))))"
    by (simp add: st rep enf) (simp add: regEmpty_def)
  have second: "canWrite env0 (connections registered) (enforcedCommons registered) ''s2'' (twoTags ''B'' 1) = Allow"
    by (simp add: canWrite_def commonsOf_twoTags registered_enforced)
  have ownerRefused: "canWrite env0 (connections registeredX) (enforcedCommons registeredX) ''s1'' ownerSecond
       = Deny ''auth-required: authentication required''"
    by (simp add: canWrite_def commonsOf_ownerSecond registeredX_enforced owner_X
        registeredX_connections registered_s1)
       (simp add: ownerSecond_def)
  have facts: "taggedWith (twoTags ''B'' 1) ''39002:A:g''" "''39002:A:g'' \<in> enforcedCommons registered"
    "collectivePubkey ''39002:A:g'' = Some ''A''"
    "\<not> isAuthenticated (connections registered) ''s2''"
    "taggedWith ownerSecond ''39002:A:g''" "''39002:A:g'' \<in> enforcedCommons registeredX"
    by (simp_all add: taggedWith_twoTags registered_enforced owner_A registered_not_auth
        taggedWith_ownerSecond registeredX_enforced)
  have authors: "event.pubkey (twoTags ''B'' 1) = ''B''" "event.pubkey ownerSecond = ''A''"
    by (simp_all add: twoTags_def ownerSecond_def)
  from empty second ownerRefused facts authors show ?thesis by blast
qed

text \<open>
  In the scenario the commons \<open>39002:A:g\<close> is enforced. An event of \<open>A\<close> tagged to it is
  allowed on a socket the relay does not know; the same event of \<open>B\<close>, on the socket of \<open>B\<close>
  before it authenticates, is refused with \<open>auth-required\<close>. The registration of \<open>A\<close>
  enforces \<open>39002:A:g\<close>; the registration with the empty value enforces nothing.
\<close>

theorem owner_write_and_registration_witness:
  "canWrite env0 (connections registered) (enforcedCommons registered) ''s3'' (post ''A'' 1) = Allow
   \<and> \<not> isAuthenticated (connections registered) ''s3''
   \<and> canWrite env0 (connections registered) (enforcedCommons registered) ''s2'' (post ''B'' 1)
       = Deny ''auth-required: authentication required''
   \<and> enforcedCommons (fst (onEvent env0 connectedA ''s1'' reg)) = {''39002:A:g''}
   \<and> enforcedCommons (fst (onEvent env0 connectedA ''s1'' regEmpty)) = {}"
proof -
  have a: "canWrite env0 (connections registered) (enforcedCommons registered) ''s3'' (post ''A'' 1) = Allow"
    using owner_write_and_registration [where e = "post ''A'' 1" and c = "''39002:A:g''"
        and enf = "enforcedCommons registered" and cs = "connections registered" and sid = "''s3''"
        and env = env0 and S = registered and i = Tick and now = 0]
    by (simp add: commonsOf_post owner_A registered_enforced)
  have b: "canWrite env0 (connections registered) (enforcedCommons registered) ''s2'' (post ''B'' 1)
       = Deny ''auth-required: authentication required''"
    using owner_write_and_registration [where e = "post ''B'' 1" and c = "''39002:A:g''"
        and enf = "enforcedCommons registered" and cs = "connections registered" and sid = "''s2''"
        and env = env0 and S = registered and i = Tick and now = 0]
    by (simp add: canWrite_def commonsOf_post owner_A registered_enforced registered_connections
        connB_fresh_def)
  have c: "enforcedCommons (fst (onEvent env0 connectedA ''s1'' reg)) = {''39002:A:g''}"
    using owner_write_and_registration [where e = reg and c = "[]" and enf = "{}"
        and cs = "connections connectedA" and sid = "''s1''" and env = env0 and S = connectedA
        and i = Tick and now = 0] accepted_reg(1)
    by (simp add: connectedA_enforced reg_def tag_defs)
  have d: "enforcedCommons (fst (onEvent env0 connectedA ''s1'' regEmpty)) = {}"
    using owner_write_and_registration [where e = regEmpty and c = "[]" and enf = "{}"
        and cs = "connections connectedA" and sid = "''s1''" and env = env0 and S = connectedA
        and i = Tick and now = 0]
    by (simp add: connectedA_enforced regEmpty_def tag_defs)
  from a b c d registered_not_auth show ?thesis by simp
qed

subsection \<open>Writing with a grant\<close>

lemma printer0: "Number_toString env0 = decimal"
  by (simp add: env0_def)

lemma hasPublishGrant_iff:
  "hasPublishGrant toString gs k c =
     (\<exists>g\<in>set gs. action g = Some ''publish'' \<and> matchesScope toString (scope g) k
                 \<and> matchesCommons (commons g) c)"
  by (simp add: hasPublishGrant_def list_ex_iff)

lemma hasReadGrant_iff:
  "hasReadGrant gs c =
     (\<exists>g\<in>set gs. (action g = Some ''access'' \<or> action g = Some ''publish'') \<and> matchesCommons (commons g) c)"
  by (simp add: hasReadGrant_def list_ex_iff)

lemma canWrite_authenticated_author:
  assumes "cs sid = Some cn" "conn.pubkey cn = Some (event.pubkey e)" "event.pubkey e \<noteq> []"
    "commonsOf e = Some c" "c \<in> enf" "collectivePubkey c \<noteq> Some (event.pubkey e)"
  shows "canWrite env cs enf sid e =
           (if hasPublishGrant (Number_toString env) (grants cn) (kind e) c then Allow
            else Deny (''blocked: no publish grant for kind:'' @ Number_toString env (kind e)
                       @ '' in '' @ c))"
  using assms by (auto simp: canWrite_def)

text \<open>
  Claim C2, as amended. Take a connection authenticated as the author of an event, and let
  the commons reference of the event, the value of its first \<open>a\<close> tag that starts with
  \<open>39002:\<close>, be enforced with an owner other than the author. Then \<open>canWrite\<close> allows the
  write if and only if the connection holds a grant whose action is \<open>publish\<close>, whose scope
  matches the kind of the event (\<open>matchesScope\<close>) and whose commons matches that reference
  (\<open>matchesCommons\<close>); otherwise it rejects with a reason that starts with \<open>blocked:\<close>. In
  particular \<open>B\<close>, holding the single grant of \<open>publish\<close>, \<open>kind:1\<close>, \<open>39002:A:*\<close>, may
  write an event of kind 1 to \<open>39002:A:g\<close> and may not write one of kind 2.
\<close>

theorem grant_write_iff:
  "(cs sid = Some cn \<and> conn.pubkey cn = Some (event.pubkey e) \<and> event.pubkey e \<noteq> []
      \<and> commonsOf e = Some c \<and> c \<in> enf \<and> collectivePubkey c \<noteq> Some (event.pubkey e)
     \<longrightarrow> (canWrite env cs enf sid e = Allow)
           = (\<exists>g\<in>set (grants cn). action g = Some ''publish'' \<and> matchesScope (Number_toString env) (scope g) (kind e)
                                   \<and> matchesCommons (commons g) c)
         \<and> (canWrite env cs enf sid e = Allow
              \<or> (\<exists>r. canWrite env cs enf sid e = Deny r \<and> prefix ''blocked:'' r)))
   \<and> grants connB = [\<lparr>action = Some ''publish'', scope = ''kind:1'', commons = ''39002:A:*''\<rparr>]
   \<and> canWrite env0 (connections authenticatedB) (enforcedCommons authenticatedB) ''s2'' (post ''B'' 1) = Allow
   \<and> canWrite env0 (connections authenticatedB) (enforcedCommons authenticatedB) ''s2'' (post ''B'' 2)
       = Deny ''blocked: no publish grant for kind:2 in 39002:A:g''"
proof (intro conjI impI)
  assume h: "cs sid = Some cn \<and> conn.pubkey cn = Some (event.pubkey e) \<and> event.pubkey e \<noteq> []
      \<and> commonsOf e = Some c \<and> c \<in> enf \<and> collectivePubkey c \<noteq> Some (event.pubkey e)"
  then have w: "canWrite env cs enf sid e =
           (if hasPublishGrant (Number_toString env) (grants cn) (kind e) c then Allow
            else Deny (''blocked: no publish grant for kind:'' @ Number_toString env (kind e)
                       @ '' in '' @ c))"
    by (intro canWrite_authenticated_author) simp_all
  show "(canWrite env cs enf sid e = Allow)
           = (\<exists>g\<in>set (grants cn). action g = Some ''publish'' \<and> matchesScope (Number_toString env) (scope g) (kind e)
                                   \<and> matchesCommons (commons g) c)"
    by (simp add: w hasPublishGrant_iff)
  show "canWrite env cs enf sid e = Allow \<or> (\<exists>r. canWrite env cs enf sid e = Deny r \<and> prefix ''blocked:'' r)"
    by (simp add: w)
next
  show "grants connB = [\<lparr>action = Some ''publish'', scope = ''kind:1'', commons = ''39002:A:*''\<rparr>]"
    by (simp add: connB_def grant1_def)
next
  have pre: "connections authenticatedB ''s2'' = Some connB" "conn.pubkey connB = Some (event.pubkey (post ''B'' k))"
    "event.pubkey (post ''B'' k) \<noteq> []" "commonsOf (post ''B'' k) = Some ''39002:A:g''"
    "''39002:A:g'' \<in> enforcedCommons authenticatedB"
    "collectivePubkey ''39002:A:g'' \<noteq> Some (event.pubkey (post ''B'' k))" for k
    by (simp_all add: authenticatedB_s2 connB_def commonsOf_post authenticatedB_enforced owner_A)
  have m1: "hasPublishGrant decimal (grants connB) 1 ''39002:A:g''"
    by (simp add: hasPublishGrant_def connB_def grant1_def matchesScope_def matchesCommons_def
        num_defs str_defs)
  have m2: "\<not> hasPublishGrant decimal (grants connB) 2 ''39002:A:g''"
    by (simp add: hasPublishGrant_def connB_def grant1_def matchesScope_def matchesCommons_def
        num_defs str_defs)
  have two: "decimal 2 = ''2''"
    by (simp add: num_defs)
  show "canWrite env0 (connections authenticatedB) (enforcedCommons authenticatedB) ''s2'' (post ''B'' 1) = Allow"
    using canWrite_authenticated_author [where cs = "connections authenticatedB" and sid = "''s2''"
        and env = env0, OF pre, of 1] m1
    by (simp add: printer0)
  show "canWrite env0 (connections authenticatedB) (enforcedCommons authenticatedB) ''s2'' (post ''B'' 2)
       = Deny ''blocked: no publish grant for kind:2 in 39002:A:g''"
    using canWrite_authenticated_author [where cs = "connections authenticatedB" and sid = "''s2''"
        and env = env0, OF pre, of 2] m2
    by (simp add: printer0 two)
qed

text \<open>
  The claim as first stated speaks of every event tagged with an enforced commons. The
  event \<open>twoTags ''B'' 2\<close> of \<open>B\<close>, of kind 2, is tagged with the enforced \<open>39002:A:g\<close>, whose
  owner is \<open>A\<close>, behind \<open>39002:X:free\<close>, which is not enforced. \<open>B\<close> is authenticated and
  its grant matches kind 2 for neither commons; \<open>canWrite\<close> looks at the first tag only and
  allows the write.
\<close>

theorem grant_write_counterexample:
  "connections authenticatedB ''s2'' = Some connB
   \<and> conn.pubkey connB = Some ''B''
   \<and> event.pubkey (twoTags ''B'' 2) = ''B''
   \<and> kind (twoTags ''B'' 2) = 2
   \<and> taggedWith (twoTags ''B'' 2) ''39002:A:g''
   \<and> ''39002:A:g'' \<in> enforcedCommons authenticatedB
   \<and> collectivePubkey ''39002:A:g'' = Some ''A''
   \<and> \<not> hasPublishGrant decimal (grants connB) 2 ''39002:A:g''
   \<and> \<not> hasPublishGrant decimal (grants connB) 2 ''39002:X:free''
   \<and> canWrite env0 (connections authenticatedB) (enforcedCommons authenticatedB) ''s2''
        (twoTags ''B'' 2) = Allow"
proof -
  have m: "\<not> hasPublishGrant decimal (grants connB) 2 ''39002:A:g''"
    "\<not> hasPublishGrant decimal (grants connB) 2 ''39002:X:free''"
    by (simp_all add: hasPublishGrant_def connB_def grant1_def matchesScope_def matchesCommons_def
        num_defs str_defs)
  have w: "canWrite env0 (connections authenticatedB) (enforcedCommons authenticatedB) ''s2''
        (twoTags ''B'' 2) = Allow"
    by (simp add: canWrite_def commonsOf_twoTags authenticatedB_enforced)
  show ?thesis
    using m w
    by (simp add: authenticatedB_s2 authenticatedB_enforced owner_A taggedWith_twoTags)
       (simp add: connB_def twoTags_def)
qed

text \<open>
  The general statement at the two events of \<open>B\<close>: its hypotheses hold in the scenario, a
  matching grant exists for kind 1 and none for kind 2.
\<close>

theorem grant_write_iff_witness:
  "connections authenticatedB ''s2'' = Some connB
   \<and> conn.pubkey connB = Some ''B''
   \<and> commonsOf (post ''B'' 2) = Some ''39002:A:g''
   \<and> ''39002:A:g'' \<in> enforcedCommons authenticatedB
   \<and> collectivePubkey ''39002:A:g'' = Some ''A''
   \<and> (\<exists>g\<in>set (grants connB). action g = Some ''publish'' \<and> matchesScope decimal (scope g) 1
                               \<and> matchesCommons (commons g) ''39002:A:g'')
   \<and> \<not> (\<exists>g\<in>set (grants connB). action g = Some ''publish'' \<and> matchesScope decimal (scope g) 2
                               \<and> matchesCommons (commons g) ''39002:A:g'')
   \<and> prefix ''blocked:''
        (reason (canWrite env0 (connections authenticatedB) (enforcedCommons authenticatedB) ''s2'' (post ''B'' 2)))"
proof -
  have pre: "connections authenticatedB ''s2'' = Some connB" "conn.pubkey connB = Some ''B''"
    "commonsOf (post ''B'' k) = Some ''39002:A:g''" "''39002:A:g'' \<in> enforcedCommons authenticatedB"
    "collectivePubkey ''39002:A:g'' = Some ''A''" for k
    by (simp_all add: authenticatedB_s2 connB_def commonsOf_post authenticatedB_enforced owner_A)
  note inst = grant_write_iff [where cs = "connections authenticatedB" and sid = "''s2''"
      and cn = connB and c = "''39002:A:g''" and enf = "enforcedCommons authenticatedB"
      and env = env0, unfolded printer0]
  have pre': "connections authenticatedB ''s2'' = Some connB
      \<and> conn.pubkey connB = Some (event.pubkey (post ''B'' k)) \<and> event.pubkey (post ''B'' k) \<noteq> []
      \<and> commonsOf (post ''B'' k) = Some ''39002:A:g'' \<and> ''39002:A:g'' \<in> enforcedCommons authenticatedB
      \<and> collectivePubkey ''39002:A:g'' \<noteq> Some (event.pubkey (post ''B'' k))" for k
    using pre by simp
  have iff: "(canWrite env0 (connections authenticatedB) (enforcedCommons authenticatedB) ''s2'' (post ''B'' k) = Allow)
      = (\<exists>g\<in>set (grants connB). action g = Some ''publish''
            \<and> matchesScope decimal (scope g) (kind (post ''B'' k)) \<and> matchesCommons (commons g) ''39002:A:g'')" for k
    using inst [where e = "post ''B'' k"] pre' [of k] by blast
  have w1: "canWrite env0 (connections authenticatedB) (enforcedCommons authenticatedB) ''s2'' (post ''B'' 1) = Allow"
    and w2: "canWrite env0 (connections authenticatedB) (enforcedCommons authenticatedB) ''s2'' (post ''B'' 2)
       = Deny ''blocked: no publish grant for kind:2 in 39002:A:g''"
    using inst [where e = "post ''B'' 1"] by blast+
  have one: "\<exists>g\<in>set (grants connB). action g = Some ''publish'' \<and> matchesScope decimal (scope g) 1
                               \<and> matchesCommons (commons g) ''39002:A:g''"
    using iff [of 1] w1 by simp
  have two: "\<not> (\<exists>g\<in>set (grants connB). action g = Some ''publish'' \<and> matchesScope decimal (scope g) 2
                               \<and> matchesCommons (commons g) ''39002:A:g'')"
    using iff [of 2] w2 by simp
  have three: "prefix ''blocked:''
        (reason (canWrite env0 (connections authenticatedB) (enforcedCommons authenticatedB) ''s2'' (post ''B'' 2)))"
    using w2 by simp
  from pre one two three show ?thesis by simp
qed

subsection \<open>Reading\<close>

lemma canRead_enforced:
  assumes "commonsOf e = Some c" "c \<in> enf"
  shows "canRead cs enf sid e =
           (\<exists>cn. cs sid = Some cn \<and> truthy (conn.pubkey cn) \<and> hasReadGrant (grants cn) c)"
  using assms by (auto simp: canRead_def split: option.splits)

lemma commonsOf_kind [simp]: "commonsOf (e\<lparr>kind := k\<rparr>) = commonsOf e"
  by (simp add: commonsOf_def)

lemma hasReadGrant_scope [simp]: "hasReadGrant (map (\<lambda>g. g\<lparr>scope := f g\<rparr>) gs) c = hasReadGrant gs c"
  by (induction gs) (simp_all add: hasReadGrant_def)

lemma filter_without:
  "\<not> P e \<Longrightarrow> filter P (map snd (filter (\<lambda>x. snd x \<noteq> e) xs)) = filter P (map snd xs)"
  by (induction xs) auto

text \<open>
  Claim C3, as amended. For an event whose commons reference, the value of its first \<open>a\<close>
  tag that starts with \<open>39002:\<close>, is enforced, \<open>canRead\<close> is true if and only if the
  connection is authenticated and holds a grant whose action is \<open>access\<close> or \<open>publish\<close> and
  whose commons matches that reference. The scopes of the grants and the kind of the event
  play no role: replacing every scope and the kind by anything gives the same answer. A
  false answer sends nothing: the callback of a live subscription returns without a reply,
  and a REQ answers as if the event were not in the store, with nothing but deliveries of
  readable events and the EOSE.
\<close>

theorem read_iff:
  "(commonsOf e = Some c \<and> c \<in> enf
      \<longrightarrow> canRead cs enf sid e =
            (isAuthenticated cs sid
             \<and> (\<exists>cn. cs sid = Some cn
                  \<and> (\<exists>g\<in>set (grants cn). (action g = Some ''access'' \<or> action g = Some ''publish'')
                                        \<and> matchesCommons (commons g) c))))
   \<and> canRead (cs(sid \<mapsto> cn\<lparr>grants := map (\<lambda>g. g\<lparr>scope := f g\<rparr>) (grants cn)\<rparr>)) enf sid (e\<lparr>kind := k\<rparr>)
       = canRead (cs(sid \<mapsto> cn)) enf sid e
   \<and> (\<not> canRead cs enf sid e \<longrightarrow> makecb env sid lsubid filters cs enf e = [])
   \<and> (\<not> canRead (connections S) (enforcedCommons S) sid e
        \<longrightarrow> snd (onReq env S sid lsubid filters)
             = snd (onReq env (S\<lparr>events := filter (\<lambda>x. snd x \<noteq> e) (events S)\<rparr>) sid lsubid filters))
   \<and> (\<forall>x\<in>set (snd (onReq env S sid lsubid filters)).
          x = (sid, EOSE lsubid)
          \<or> (\<exists>e'. x = (sid, Deliver lsubid e') \<and> canRead (connections S) (enforcedCommons S) sid e'))"
proof (intro conjI impI)
  assume "commonsOf e = Some c \<and> c \<in> enf"
  then show "canRead cs enf sid e =
            (isAuthenticated cs sid
             \<and> (\<exists>cn. cs sid = Some cn
                  \<and> (\<exists>g\<in>set (grants cn). (action g = Some ''access'' \<or> action g = Some ''publish'')
                                        \<and> matchesCommons (commons g) c)))"
    by (auto simp: canRead_enforced hasReadGrant_iff isAuthenticated_def)
next
  show "canRead (cs(sid \<mapsto> cn\<lparr>grants := map (\<lambda>g. g\<lparr>scope := f g\<rparr>) (grants cn)\<rparr>)) enf sid (e\<lparr>kind := k\<rparr>)
       = canRead (cs(sid \<mapsto> cn)) enf sid e"
    by (simp add: canRead_def split: option.splits)
next
  assume "\<not> canRead cs enf sid e"
  then show "makecb env sid lsubid filters cs enf e = []"
    by (simp add: makecb_def)
next
  assume no: "\<not> canRead (connections S) (enforcedCommons S) sid e"
  have "filter (\<lambda>e'. matchFilters env filters e' \<and> canRead (connections S) (enforcedCommons S) sid e')
          (map snd (filter (\<lambda>x. snd x \<noteq> e) (events S)))
        = filter (\<lambda>e'. matchFilters env filters e' \<and> canRead (connections S) (enforcedCommons S) sid e')
          (map snd (events S))"
    using no by (intro filter_without) simp
  then show "snd (onReq env S sid lsubid filters)
             = snd (onReq env (S\<lparr>events := filter (\<lambda>x. snd x \<noteq> e) (events S)\<rparr>) sid lsubid filters)"
    by (simp add: onReq_def)
next
  show "\<forall>x\<in>set (snd (onReq env S sid lsubid filters)).
          x = (sid, EOSE lsubid)
          \<or> (\<exists>e'. x = (sid, Deliver lsubid e') \<and> canRead (connections S) (enforcedCommons S) sid e')"
    by (auto simp: onReq_def)
qed


text \<open>
  The claim as first stated speaks of every event tagged with an enforced commons. The
  event \<open>twoTags ''A'' 1\<close> is tagged with the enforced \<open>39002:A:g\<close> behind \<open>39002:X:free\<close>,
  which is not enforced; \<open>canRead\<close> looks at the first tag only and lets the socket of \<open>B\<close>
  read it before \<open>B\<close> has authenticated.
\<close>

theorem read_counterexample:
  "taggedWith (twoTags ''A'' 1) ''39002:A:g''
   \<and> ''39002:A:g'' \<in> enforcedCommons registered
   \<and> \<not> isAuthenticated (connections registered) ''s2''
   \<and> canRead (connections registered) (enforcedCommons registered) ''s2'' (twoTags ''A'' 1)"
  by (simp add: taggedWith_twoTags registered_enforced registered_not_auth canRead_def
      commonsOf_twoTags)

lemma grant1_reads: "hasReadGrant (grants connB) ''39002:A:g''"
  by (simp add: hasReadGrant_def connB_def grant1_def matchesCommons_def str_defs)

text \<open>
  In the scenario an event of kind 7 in the commons of \<open>A\<close> is not read by \<open>B\<close> before it
  authenticates, and the callback of its subscription sends nothing; once \<open>B\<close> holds its
  grant, whose scope is \<open>kind:1\<close>, it reads the event.
\<close>

theorem read_iff_witness:
  "commonsOf (post ''A'' 7) = Some ''39002:A:g''
   \<and> ''39002:A:g'' \<in> enforcedCommons registered
   \<and> \<not> canRead (connections registered) (enforcedCommons registered) ''s2'' (post ''A'' 7)
   \<and> makecb env0 ''s2'' ''sub'' () (connections registered) (enforcedCommons registered) (post ''A'' 7) = []
   \<and> canRead (connections authenticatedB) (enforcedCommons authenticatedB) ''s2'' (post ''A'' 7)"
proof -
  have pre: "commonsOf (post ''A'' 7) = Some ''39002:A:g''"
    "''39002:A:g'' \<in> enforcedCommons registered" "''39002:A:g'' \<in> enforcedCommons authenticatedB"
    by (simp_all add: commonsOf_post registered_enforced authenticatedB_enforced)
  have no: "\<not> canRead (connections registered) (enforcedCommons registered) ''s2'' (post ''A'' 7)"
    using read_iff [where e = "post ''A'' 7" and c = "''39002:A:g''" and enf = "enforcedCommons registered"
        and cs = "connections registered" and sid = "''s2''" and S = registered and env = env0
        and lsubid = "''sub''" and filters = "()" and cn = connB_fresh and k = 7 and f = scope] pre
    by (simp add: isAuthenticated_def registered_connections connB_fresh_def)
  have silent: "makecb env0 ''s2'' ''sub'' () (connections registered) (enforcedCommons registered) (post ''A'' 7) = []"
    using read_iff [where e = "post ''A'' 7" and c = "''39002:A:g''" and enf = "enforcedCommons registered"
        and cs = "connections registered" and sid = "''s2''" and S = registered and env = env0
        and lsubid = "''sub''" and filters = "()" and cn = connB_fresh and k = 7 and f = scope] no
    by blast
  have yes: "canRead (connections authenticatedB) (enforcedCommons authenticatedB) ''s2'' (post ''A'' 7)"
    using read_iff [where e = "post ''A'' 7" and c = "''39002:A:g''" and enf = "enforcedCommons authenticatedB"
        and cs = "connections authenticatedB" and sid = "''s2''" and S = authenticatedB and env = env0
        and lsubid = "''sub''" and filters = "()" and cn = connB and k = 7 and f = scope] pre
      grant1_reads
    by (simp add: isAuthenticated_def authenticatedB_s2 hasReadGrant_iff) (simp add: connB_def)
  from pre no silent yes show ?thesis by simp
qed

subsection \<open>Monotonicity\<close>

text \<open>
  Claim C6. Enforcement is monotonic: a commons reference in the enforced set is still in
  it after an AUTH, after an EVENT, after a REQ, after a CLOSE, after the socket closes,
  after the timer clears the event store, after a socket connects, so after any turn of
  the relay and after any sequence of turns.
\<close>

theorem enforced_forever:
  "c \<in> enforcedCommons S \<Longrightarrow>
     c \<in> enforcedCommons (fst (onAuth env now S sid a))
     \<and> c \<in> enforcedCommons (fst (onEvent env S sid e))
     \<and> c \<in> enforcedCommons (fst (onReq env S sid lsubid filters))
     \<and> c \<in> enforcedCommons (onClose S sid lsubid)
     \<and> c \<in> enforcedCommons (onDisconnect S sid)
     \<and> c \<in> enforcedCommons (clearEvents S)
     \<and> c \<in> enforcedCommons (fst (onConnection S sid ch))
     \<and> c \<in> enforcedCommons (fst (step env S i))
     \<and> c \<in> enforcedCommons (run env S inputs)"
proof -
  assume c: "c \<in> enforcedCommons S"
  have ev: "c \<in> enforcedCommons (fst (onEvent env S sid e))"
    using c processEvent_mono [of "enforcedCommons S" e] by (auto simp: onEvent_enforced)
  have others: "c \<in> enforcedCommons (fst (onAuth env now S sid a))"
    "c \<in> enforcedCommons (fst (onReq env S sid lsubid filters))"
    "c \<in> enforcedCommons (onClose S sid lsubid)"
    "c \<in> enforcedCommons (onDisconnect S sid)"
    "c \<in> enforcedCommons (clearEvents S)"
    "c \<in> enforcedCommons (fst (onConnection S sid ch))"
    using c by (simp_all add: onAuth_def onReq_def onClose_def onDisconnect_def clearEvents_def
        onConnection_def split: prod.splits)
  have st: "c \<in> enforcedCommons (fst (step env S i))"
    using c step_enforced_mono [of S env i] by blast
  have rn: "c \<in> enforcedCommons (run env S inputs)"
    using c run_enforced_mono [of S env inputs] by blast
  from ev others st rn show ?thesis by blast
qed

text \<open>
  In the scenario the commons of \<open>A\<close> is still enforced after both sockets have closed and
  the store has been cleared.
\<close>

lemma laterInputs_events: "events (run env0 registered laterInputs) = []"
  by (simp add: laterInputs_def step_def clearEvents_def)

theorem enforced_forever_witness:
  "''39002:A:g'' \<in> enforcedCommons registered
   \<and> events (run env0 registered laterInputs) = []
   \<and> ''39002:A:g'' \<in> enforcedCommons (run env0 registered laterInputs)"
  using enforced_forever [of "''39002:A:g''" registered env0 _ _ _ _ _ _ _ _ laterInputs]
  by (simp add: registered_enforced laterInputs_events)

section \<open>Further properties\<close>

text \<open>
  Where numbers are printed as decimal numerals, a scope \<open>kind:N\<close>, and a scope that is the
  bare number \<open>N\<close>, match the events of kind \<open>N\<close> and no others.
\<close>

theorem scope_names_one_kind:
  "matchesScope decimal (''kind:'' @ decimal n) k = (n = k)
   \<and> matchesScope decimal (decimal n) k = (n = k)"
proof -
  obtain c cs where n: "decimal n = c # cs" "c = CHR ''-'' \<or> isDecimal c"
    using decimal_hd [of n] by blast
  obtain c' cs' where k: "decimal k = c' # cs'" "c' = CHR ''-'' \<or> isDecimal c'"
    using decimal_hd [of k] by blast
  have nostar: "decimal n \<noteq> ''*''"
    using n by (auto simp: isDecimal_def)
  have nokind: "decimal n \<noteq> ''kind:'' @ decimal k"
    "''kind:'' @ decimal n \<noteq> decimal k"
    using n k by (auto simp: isDecimal_def)
  have inj: "(decimal n = decimal k) = (n = k)"
    using decimal_inj by blast
  show ?thesis
    using nostar nokind inj by (simp add: matchesScope_def)
qed

text \<open>
  On an initialized connection, an AUTH message of a kind other than 22242 fails with the
  reason \<open>invalid auth kind\<close>, which names both kinds, before its signature is looked at; one whose challenge is not
  the stored one fails whatever else it carries; one whose token names another grantee
  than its author fails with the reason \<open>grantee mismatch\<close>.
\<close>

theorem auth_rejections:
  "cs sid = Some c \<Longrightarrow>
     (kind a \<noteq> AUTH_KIND \<longrightarrow>
        handleAuth env now cs sid a
          = (cs, reject (''invalid auth kind: expected '' @ Number_toString env AUTH_KIND
                         @ '', got '' @ Number_toString env (kind a))))
   \<and> (tagValue ''challenge'' (tags a) \<noteq> Some (challenge c) \<longrightarrow> \<not> ok (snd (handleAuth env now cs sid a)))
   \<and> (kind a = AUTH_KIND \<and> verifyEvent env a \<and> tagValue ''challenge'' (tags a) = Some (challenge c)
        \<and> tagValue ''cap'' (tags a) = Some j \<and> j \<noteq> [] \<and> JSON_parse env j = Some cap
        \<and> verifyEvent env cap \<and> tagValue ''p'' (tags cap) \<noteq> Some (event.pubkey a)
      \<longrightarrow> handleAuth env now cs sid a
          = (cs, reject (''grantee mismatch: cap='' @ slice8 (tagValue ''p'' (tags cap))
                         @ '', auth='' @ take 8 (event.pubkey a))))"
proof -
  assume "cs sid = Some c"
  then show ?thesis
    by (auto simp: handleAuth_def handleCap_def slice8_def)
qed

theorem auth_rejections_witness:
  "handleAuth env0 1600000000000 (connections registered) ''s2'' authB_wrongKind
     = (connections registered, reject ''invalid auth kind: expected 22242, got 1'')
   \<and> \<not> ok (snd (handleAuth env0 1600000000000 (connections registered) ''s2'' authB_stale))
   \<and> handleAuth env1 1600000000000 (connections registered) ''s2'' authB
     = (connections registered, reject ''grantee mismatch: cap=C, auth=B'')"
proof -
  note inst = auth_rejections [where cs = "connections registered" and sid = "''s2''"
      and c = connB_fresh and now = 1600000000000, OF registered_connections(1)]
  have one: "decimal 1 = ''1''" "decimal 22242 = ''22242''"
    by (simp_all add: num_defs)
  have a: "handleAuth env0 1600000000000 (connections registered) ''s2'' authB_wrongKind
     = (connections registered, reject ''invalid auth kind: expected 22242, got 1'')"
    using inst [where a = authB_wrongKind and env = env0 and j = "[]" and cap = cap1]
    by (simp add: authB_wrongKind_def AUTH_KIND_def one printer0)
  have b: "\<not> ok (snd (handleAuth env0 1600000000000 (connections registered) ''s2'' authB_stale))"
    using inst [where a = authB_stale and env = env0 and j = "[]" and cap = cap1]
    by (simp add: authB_stale_def tag_defs connB_fresh_def)
  have c: "handleAuth env1 1600000000000 (connections registered) ''s2'' authB
     = (connections registered, reject ''grantee mismatch: cap=C, auth=B'')"
    using inst [where a = authB and env = env1 and j = "''cap1.json''" and cap = capForC]
    by (simp add: authB_def env1_def env0_def capForC_def cap1_def tag_defs connB_fresh_def
        AUTH_KIND_def slice8_def)
  from a b c show ?thesis by simp
qed

text \<open>
  An event with no commons reference, or whose commons reference is not enforced, may be
  written and read by every connection.
\<close>

theorem unenforced_allows:
  "(commonsOf e = None \<longrightarrow> canWrite env cs enf sid e = Allow \<and> canRead cs enf sid e)
   \<and> (commonsOf e = Some c \<and> c \<notin> enf \<longrightarrow> canWrite env cs enf sid e = Allow \<and> canRead cs enf sid e)"
  by (simp add: canWrite_def canRead_def)

theorem unenforced_allows_witness:
  "commonsOf reg = None
   \<and> canWrite env0 (connections registered) (enforcedCommons registered) ''s2'' reg = Allow
   \<and> commonsOf (post ''B'' 1) = Some ''39002:A:g''
   \<and> ''39002:A:g'' \<notin> enforcedCommons connectedA
   \<and> canWrite env0 (connections connectedA) (enforcedCommons connectedA) ''s9'' (post ''B'' 1) = Allow
   \<and> canRead (connections connectedA) (enforcedCommons connectedA) ''s9'' (post ''B'' 1)"
  using unenforced_allows [where e = reg and env = env0 and cs = "connections registered"
      and enf = "enforcedCommons registered" and sid = "''s2''" and c = "[]"]
    unenforced_allows [where e = "post ''B'' 1" and env = env0 and cs = "connections connectedA"
      and enf = "enforcedCommons connectedA" and sid = "''s9''" and c = "''39002:A:g''"]
  by (simp add: commonsOf_reg commonsOf_post connectedA_enforced)

text \<open>
  A connection authenticated as one identity may not write, to an enforced commons it does
  not own, an event of another author: the grants of a connection serve its holder only.
\<close>

theorem pubkey_mismatch_blocked:
  "cs sid = Some cn \<and> truthy (conn.pubkey cn) \<and> conn.pubkey cn \<noteq> Some (event.pubkey e)
     \<and> commonsOf e = Some c \<and> c \<in> enf \<and> collectivePubkey c \<noteq> Some (event.pubkey e)
   \<longrightarrow> canWrite env cs enf sid e
        = Deny (''blocked: pubkey mismatch (auth='' @ slice8 (conn.pubkey cn)
                @ '', event='' @ take 8 (event.pubkey e) @ '')'')"
  by (auto simp: canWrite_def)

theorem pubkey_mismatch_blocked_witness:
  "canWrite env0 (connections authenticatedB) (enforcedCommons authenticatedB) ''s2'' (post ''C'' 1)
     = Deny ''blocked: pubkey mismatch (auth=B, event=C)''"
  using pubkey_mismatch_blocked [where cs = "connections authenticatedB" and sid = "''s2''"
      and cn = connB and e = "post ''C'' 1" and c = "''39002:A:g''"
      and enf = "enforcedCommons authenticatedB" and env = env0]
  by (simp add: authenticatedB_s2 authenticatedB_enforced commonsOf_post owner_A)
     (simp add: connB_def slice8_def)

text \<open>A REQ on an empty event store is answered by the EOSE alone.\<close>

theorem req_on_empty_store:
  "events S = [] \<Longrightarrow> snd (onReq env S sid lsubid filters) = [(sid, EOSE lsubid)]"
  by (simp add: onReq_def)

lemma initial_events: "events initial = []"
  by (simp add: initial_def)

theorem req_on_empty_store_witness:
  "events initial = [] \<and> snd (onReq env0 initial ''s1'' ''sub'' ()) = [(''s1'', EOSE ''sub'')]"
  using req_on_empty_store [of initial env0 "''s1''" "''sub''" "()"]
  by (simp add: initial_events)

end
